theory Spec2Isabelle
  imports Main "HOL-Library.Word"
begin

section \<open>JavaScript strings\<close>

text \<open>
  A JavaScript string is a sequence of UTF-16 code units. The regular expressions of
  \<^verbatim>\<open>createPages.js\<close> carry no \<^verbatim>\<open>u\<close> flag, so they too work on code units.
  String literals of the source are written \<open>js ''...''\<close>.
\<close>

type_synonym jschar = "16 word"
type_synonym jsstring = "jschar list"

definition js :: "string \<Rightarrow> jsstring" where
  "js s = map of_char s"

definition slash :: jschar where
  "slash = 0x2F"

definition hyphen :: jschar where
  "hyphen = 0x2D"

definition comma :: jschar where
  "comma = 0x2C"

text \<open>
  \<^verbatim>\<open>${index}\<close> inside a template literal is \<^verbatim>\<open>ToString(index)\<close>. The page counter is a
  JavaScript number with an integer value. For a safe integer (of magnitude below
  \<open>2^53\<close>) \<^verbatim>\<open>ToString\<close> is the decimal numeral, with a minus sign when negative. Above
  that the engine prints the shortest digits that read back as the same double, padded
  with zeros (\<open>2^60\<close> prints as \<^verbatim>\<open>1152921504606847000\<close>), and exponent notation from
  \<open>10^21\<close> on: that rendering is the parameter \<open>large\<close> of the model.
\<close>

definition digit :: "nat \<Rightarrow> jschar" where
  "digit d = 0x30 + of_nat d"

fun decimal :: "nat \<Rightarrow> jsstring" where
  "decimal n = (if n < 10 then [digit n] else decimal (n div 10) @ [digit (n mod 10)])"

declare decimal.simps [simp del]

definition ToString :: "(int \<Rightarrow> jsstring) \<Rightarrow> int \<Rightarrow> jsstring" where
  "ToString large n =
     (if 0 \<le> n \<and> n < 2 ^ 53 then decimal (nat n)
      else if - (2 ^ 53) < n \<and> n < 0 then hyphen # decimal (nat (- n))
      else large n)"

section \<open>Utility functions\<close>

text \<open>
  \<^verbatim>\<open>
  function buildPaginatedPath(index, basePath) {
    if (basePath === "/") {
      return index > 1 ? `${basePath}page/${index}` : basePath;
    }
    return index > 1 ? `${basePath}/page/${index}` : basePath;
  }
  \<close>
\<close>

definition buildPaginatedPath :: "(int \<Rightarrow> jsstring) \<Rightarrow> int \<Rightarrow> jsstring \<Rightarrow> jsstring" where
  "buildPaginatedPath large index basePath =
     (if basePath = js ''/'' then
        (if index > 1 then basePath @ js ''page/'' @ ToString large index else basePath)
      else
        (if index > 1 then basePath @ js ''/page/'' @ ToString large index else basePath))"

text \<open>
  \<^verbatim>\<open>
  function slugify(str, base) {
    const slug = str
      .toLowerCase()
      .normalize("NFD")
      .replace(/[\u0300-\u036f]/g, "")
      .replace(/[^a-z0-9]+/g, "-")
      .replace(/(^-|-$)+/g, "");
    return `${base}/${slug}`.replace(/\/\/+/g, "/");
  }
  \<close>
  \<^verbatim>\<open>toLowerCase\<close> and \<^verbatim>\<open>normalize("NFD")\<close> are defined by the Unicode tables of the
  JavaScript engine; they are the parameters \<open>lower\<close> and \<open>nfd\<close> of the model. Each
  global \<^verbatim>\<open>replace\<close> is a left-to-right scan for the leftmost, longest match of its
  pattern.
\<close>

definition is_combining_mark :: "jschar \<Rightarrow> bool" where
  \<comment> \<open>the class \<^verbatim>\<open>[\u0300-\u036f]\<close>\<close>
  "is_combining_mark c = (0x300 \<le> c \<and> c \<le> 0x36F)"

definition is_az09 :: "jschar \<Rightarrow> bool" where
  \<comment> \<open>the class \<^verbatim>\<open>[a-z0-9]\<close>\<close>
  "is_az09 c = ((0x61 \<le> c \<and> c \<le> 0x7A) \<or> (0x30 \<le> c \<and> c \<le> 0x39))"

definition strip_combining_marks :: "jsstring \<Rightarrow> jsstring" where
  \<comment> \<open>\<^verbatim>\<open>.replace(/[\u0300-\u036f]/g, "")\<close>\<close>
  "strip_combining_marks s = filter (\<lambda>c. \<not> is_combining_mark c) s"

function replace_class_runs :: "(jschar \<Rightarrow> bool) \<Rightarrow> jsstring \<Rightarrow> jsstring \<Rightarrow> jsstring" where
  \<comment> \<open>\<^verbatim>\<open>.replace(/C+/g, r)\<close> for a character class \<open>C\<close>: a match starts at the first
      character in the class and, being greedy, takes every following one\<close>
  "replace_class_runs C r [] = []"
| "replace_class_runs C r (c # cs) =
     (if C c then r @ replace_class_runs C r (dropWhile C cs)
      else c # replace_class_runs C r cs)"
  by pat_completeness auto
termination
  by (relation "measure (\<lambda>(C, r, s). length s)")
     (auto simp: le_imp_less_Suc length_dropWhile_le)

definition replace_non_az09 :: "jsstring \<Rightarrow> jsstring" where
  \<comment> \<open>\<^verbatim>\<open>.replace(/[^a-z0-9]+/g, "-")\<close>\<close>
  "replace_non_az09 s = replace_class_runs (\<lambda>c. \<not> is_az09 c) [hyphen] s"

definition strip_edge_hyphens :: "jsstring \<Rightarrow> jsstring" where
  \<comment> \<open>\<^verbatim>\<open>.replace(/(^-|-$)+/g, "")\<close>: \<^verbatim>\<open>^-\<close> matches one hyphen at index 0 only and
      \<^verbatim>\<open>-$\<close> one hyphen at the last index only, so a match is the first character, the
      last character, or both when the string is \<^verbatim>\<open>--\<close>\<close>
  "strip_edge_hyphens s =
     (let s1 = (case s of [] \<Rightarrow> [] | c # cs \<Rightarrow> if c = hyphen then cs else s)
      in if s1 \<noteq> [] \<and> last s1 = hyphen then butlast s1 else s1)"

function (sequential) collapse_slashes :: "jsstring \<Rightarrow> jsstring" where
  \<comment> \<open>\<^verbatim>\<open>.replace(/\/\/+/g, "/")\<close>: a match needs two slashes and takes all that follow\<close>
  "collapse_slashes (c # d # cs) =
     (if c = slash \<and> d = slash
      then slash # collapse_slashes (dropWhile (\<lambda>x. x = slash) cs)
      else c # collapse_slashes (d # cs))"
| "collapse_slashes cs = cs"
  by pat_completeness auto
termination
  by (relation "measure length")
     (auto simp: le_imp_less_Suc length_dropWhile_le less_Suc_eq_le le_SucI)

definition slugify ::
  "(jsstring \<Rightarrow> jsstring) \<Rightarrow> (jsstring \<Rightarrow> jsstring) \<Rightarrow> jsstring \<Rightarrow> jsstring \<Rightarrow> jsstring" where
  "slugify lower nfd str base =
     (let slug = strip_edge_hyphens (replace_non_az09 (strip_combining_marks
                   (nfd (lower str))))
      in collapse_slashes (base @ [slash] @ slug))"

text \<open>
  \<^verbatim>\<open>
  function getUniqueListBy(arr, key) {
    return [...new Map(arr.map(item => [item[key], item])).values()];
  }
  \<close>
  A JavaScript \<^verbatim>\<open>Map\<close> keeps its entries in the order in which their keys were first
  inserted; setting a key that is present replaces the value in place.
\<close>

fun map_set :: "('k \<times> 'v) list \<Rightarrow> 'k \<Rightarrow> 'v \<Rightarrow> ('k \<times> 'v) list" where
  "map_set [] k v = [(k, v)]"
| "map_set ((k', v') # m) k v =
     (if k' = k then (k, v) # m else (k', v') # map_set m k v)"

definition new_Map :: "('k \<times> 'v) list \<Rightarrow> ('k \<times> 'v) list" where
  "new_Map entries = foldl (\<lambda>m (k, v). map_set m k v) [] entries"

definition getUniqueListBy :: "'a list \<Rightarrow> ('a \<Rightarrow> 'k) \<Rightarrow> 'a list" where
  "getUniqueListBy arr key = map snd (new_Map (map (\<lambda>item. (key item, item)) arr))"

text \<open>
  \<^verbatim>\<open>const byDate = (a, b) => new Date(b.dateForSEO) - new Date(a.dateForSEO);\<close>
  The field \<open>article_dateForSEO\<close> below holds the time value of
  \<^verbatim>\<open>new Date(article.dateForSEO)\<close>, for articles whose date parses.
  \<^verbatim>\<open>Array.prototype.sort\<close> with a consistent comparator is a stable sort.
\<close>

fun insert_by :: "('a \<Rightarrow> 'a \<Rightarrow> int) \<Rightarrow> 'a \<Rightarrow> 'a list \<Rightarrow> 'a list" where
  "insert_by cmp x [] = [x]"
| "insert_by cmp x (y # ys) =
     (if cmp x y \<le> 0 then x # y # ys else y # insert_by cmp x ys)"

definition js_sort :: "('a \<Rightarrow> 'a \<Rightarrow> int) \<Rightarrow> 'a list \<Rightarrow> 'a list" where
  "js_sort cmp xs = foldr (insert_by cmp) xs []"

section \<open>String methods used by the page planner\<close>

fun split_on :: "jschar \<Rightarrow> jsstring \<Rightarrow> jsstring list" where
  \<comment> \<open>\<^verbatim>\<open>s.split(sep)\<close> for a one-character separator; never empty\<close>
  "split_on sep [] = [[]]"
| "split_on sep (c # cs) =
     (if c = sep then [] # split_on sep cs
      else (case split_on sep cs of [] \<Rightarrow> [[c]] | p # ps \<Rightarrow> (c # p) # ps))"

definition isWhiteSpace :: "jschar \<Rightarrow> bool" where
  \<comment> \<open>WhiteSpace and LineTerminator of ECMAScript, which \<^verbatim>\<open>trim\<close> removes\<close>
  "isWhiteSpace c =
     (c \<in> {0x9, 0xA, 0xB, 0xC, 0xD, 0x20, 0xA0, 0x1680, 0x2028, 0x2029, 0x202F,
            0x205F, 0x3000, 0xFEFF}
      \<or> (0x2000 \<le> c \<and> c \<le> 0x200A))"

definition trim :: "jsstring \<Rightarrow> jsstring" where
  "trim s = rev (dropWhile isWhiteSpace (rev (dropWhile isWhiteSpace s)))"

primrec js_includes :: "jsstring \<Rightarrow> jsstring \<Rightarrow> bool" where
  \<comment> \<open>\<^verbatim>\<open>s.includes(sub)\<close>: \<open>sub\<close> occurs in \<open>s\<close> at some index\<close>
  "js_includes [] sub = (sub = [])"
| "js_includes (c # cs) sub = (take (length sub) (c # cs) = sub \<or> js_includes cs sub)"

section \<open>Data model\<close>

text \<open>
  The normalised records. A field on which the planner calls a string method
  (\<^verbatim>\<open>article.author\<close>, \<^verbatim>\<open>author.name\<close>, \<^verbatim>\<open>author.slug\<close>) is optional: \<open>None\<close> is a
  value that is not a string (\<^verbatim>\<open>undefined\<close>, \<^verbatim>\<open>null\<close>), on which the call throws a
  \<^verbatim>\<open>TypeError\<close>. The other fields are only passed along.
\<close>

record article =
  article_id :: jsstring
  article_title :: jsstring
  article_slug :: jsstring
  article_author :: "jsstring option"
  article_dateForSEO :: int
  article_secret :: bool

record author =
  author_name :: "jsstring option"
  author_slug :: "jsstring option"

datatype js_error =
    TypeError
  | Thrown jsstring \<comment> \<open>any other value thrown by the host framework or a normaliser\<close>
  | MissingAuthorOrPost \<comment> \<open>\<^verbatim>\<open>You must have at least one Author and Post. ...\<close>\<close>
  | AuthorNotFound jsstring "jsstring option" js_error
    \<comment> \<open>\<^verbatim>\<open>We could not find the Author for: "${article.title}". ...
        Provided author: ${article.author} ${error}\<close>\<close>

datatype source = Local | Contentful

datatype kind = Authors | Articles

text \<open>
  The collaborators that are not part of \<^verbatim>\<open>createPages.js\<close>: the string tables of the
  engine, the \<^verbatim>\<open>graphql\<close> function of the host framework applied to the query of a source
  (\<^verbatim>\<open>query.local.authors\<close>, ...) and the normalisers (\<^verbatim>\<open>normalize.local.authors\<close>, ...).
  A call returns or throws. The result of \<open>graphql\<close> is the array found at
  \<^verbatim>\<open>.data.authors.edges\<close> (or \<^verbatim>\<open>.data.articles.edges\<close>), \<open>None\<close> when there is none.
\<close>

record 'edge host =
  toLowerCase :: "jsstring \<Rightarrow> jsstring"
  normalizeNFD :: "jsstring \<Rightarrow> jsstring"
  graphql :: "source \<Rightarrow> kind \<Rightarrow> js_error + 'edge list option"
  normalize_authors :: "source \<Rightarrow> 'edge \<Rightarrow> js_error + author"
  normalize_articles :: "source \<Rightarrow> 'edge \<Rightarrow> js_error + article"

record source_options =
  opt_local :: "bool option"
  opt_contentful :: "bool option"

record theme_options =
  opt_basePath :: "jsstring option"
  opt_authorsPath :: "jsstring option"
  opt_authorsPage :: "bool option"
  opt_pageLength :: "int option"
  opt_sources :: "source_options option"
  opt_mailchimp :: "jsstring option"

definition with_default :: "'a \<Rightarrow> 'a option \<Rightarrow> 'a" where
  \<comment> \<open>a destructuring default: \<^verbatim>\<open>const { x = d } = options\<close>\<close>
  "with_default d v = (case v of None \<Rightarrow> d | Some x \<Rightarrow> x)"

datatype template = Articles_template | Article_template | Author_template

datatype console_entry =
    Log jsstring jsstring \<comment> \<open>\<^verbatim>\<open>log(msg, section)\<close>\<close>
  | Console_error js_error \<comment> \<open>\<^verbatim>\<open>console.error(error)\<close>\<close>

record article_context =
  ctx_article :: article
  ctx_authors :: "author list"
  ctx_basePath :: jsstring
  ctx_slug :: jsstring
  ctx_id :: jsstring
  ctx_title :: jsstring
  ctx_mailchimp :: jsstring
  ctx_next :: "article list"

datatype paginated_context =
    Articles_context "author list" jsstring int int
    \<comment> \<open>\<^verbatim>\<open>{ authors, basePath, skip, limit }\<close>\<close>
  | Author_context author jsstring int int
    \<comment> \<open>\<^verbatim>\<open>{ author, originalPath, skip, limit }\<close>\<close>

text \<open>
  The calls the planner makes: \<^verbatim>\<open>createPage({ path, component, context })\<close> and
  \<^verbatim>\<open>createPaginatedPages({ edges, pathPrefix, pageLength, pageTemplate, context })\<close>;
  the latter always gets \<^verbatim>\<open>buildPath: buildPaginatedPath\<close>.
\<close>

datatype page_call =
    CreatePage jsstring template article_context
  | CreatePaginatedPages "article list" jsstring int template paginated_context

record build =
  console :: "console_entry list"
  calls :: "page_call list"
  thrown :: "js_error option"

section \<open>Array methods whose callback may throw\<close>

fun map_throwing :: "('a \<Rightarrow> js_error + 'b) \<Rightarrow> 'a list \<Rightarrow> js_error + 'b list" where
  "map_throwing f [] = Inr []"
| "map_throwing f (x # xs) =
     (case f x of Inl e \<Rightarrow> Inl e
      | Inr y \<Rightarrow> (case map_throwing f xs of Inl e \<Rightarrow> Inl e | Inr ys \<Rightarrow> Inr (y # ys)))"

fun filter_throwing :: "('a \<Rightarrow> js_error + bool) \<Rightarrow> 'a list \<Rightarrow> js_error + 'a list" where
  "filter_throwing f [] = Inr []"
| "filter_throwing f (x # xs) =
     (case f x of Inl e \<Rightarrow> Inl e
      | Inr b \<Rightarrow> (case filter_throwing f xs of Inl e \<Rightarrow> Inl e
                  | Inr ys \<Rightarrow> Inr (if b then x # ys else ys)))"

fun some_throwing :: "('a \<Rightarrow> js_error + bool) \<Rightarrow> 'a list \<Rightarrow> js_error + bool" where
  \<comment> \<open>\<^verbatim>\<open>some\<close> stops at the first element the callback accepts\<close>
  "some_throwing f [] = Inr False"
| "some_throwing f (x # xs) =
     (case f x of Inl e \<Rightarrow> Inl e
      | Inr b \<Rightarrow> if b then Inr True else some_throwing f xs)"

fun forEach_throwing :: "('a \<Rightarrow> js_error + 'b) \<Rightarrow> 'a list \<Rightarrow> 'b list \<times> js_error option" where
  \<comment> \<open>\<^verbatim>\<open>forEach\<close> with a callback that makes one call or throws: the calls made before
      the throw stay made\<close>
  "forEach_throwing f [] = ([], None)"
| "forEach_throwing f (x # xs) =
     (case f x of Inl e \<Rightarrow> ([], Some e)
      | Inr p \<Rightarrow> (case forEach_throwing f xs of (ps, r) \<Rightarrow> (p # ps, r)))"

section \<open>Querying the sources (lines 64 to 107)\<close>

record source_data =
  src_authors :: "author list"
  src_articles :: "article list"

definition empty_source :: source_data where
  \<comment> \<open>\<^verbatim>\<open>{ authors: [], articles: [] }\<close>\<close>
  "empty_source = \<lparr>src_authors = [], src_articles = []\<rparr>"

definition edges_map ::
  "('edge \<Rightarrow> js_error + 'b) \<Rightarrow> 'edge list option \<Rightarrow> js_error + 'b list" where
  \<comment> \<open>\<^verbatim>\<open>result.data.authors.edges.map(normalize...)\<close>\<close>
  "edges_map f r = (case r of None \<Rightarrow> Inl TypeError | Some edges \<Rightarrow> map_throwing f edges)"

definition source_label :: "source \<Rightarrow> jsstring" where
  "source_label src = (case src of Local \<Rightarrow> js ''Local'' | Contentful \<Rightarrow> js ''Contentful'')"

text \<open>
  One \<^verbatim>\<open>try { ... } catch (error) { console.error(error); }\<close> block; the two blocks of
  the source differ in the source they name only. The entry of \<^verbatim>\<open>dataSources\<close> starts
  empty; its \<^verbatim>\<open>authors\<close> are assigned before the articles are normalised.
\<close>

definition query_source :: "'edge host \<Rightarrow> source \<Rightarrow> source_data \<times> console_entry list" where
  "query_source h src =
     (let c = [Log (js ''Querying Authors & Articles source:'') (source_label src)]
      in case graphql h src Authors of
           Inl error \<Rightarrow> (empty_source, c @ [Console_error error])
         | Inr authorsResult \<Rightarrow>
        (case graphql h src Articles of
           Inl error \<Rightarrow> (empty_source, c @ [Console_error error])
         | Inr articlesResult \<Rightarrow>
        (case edges_map (normalize_authors h src) authorsResult of
           Inl error \<Rightarrow> (empty_source, c @ [Console_error error])
         | Inr as \<Rightarrow>
        (case edges_map (normalize_articles h src) articlesResult of
           Inl error \<Rightarrow>
             (\<lparr>src_authors = as, src_articles = []\<rparr>, c @ [Console_error error])
         | Inr ars \<Rightarrow> (\<lparr>src_authors = as, src_articles = ars\<rparr>, c)))))"

definition enabled :: "theme_options \<Rightarrow> source \<Rightarrow> bool" where
  \<comment> \<open>\<^verbatim>\<open>sources = {}\<close> and \<^verbatim>\<open>const { local = true, contentful = false } = sources\<close>\<close>
  "enabled themeOptions src =
     (let sources = with_default \<lparr>opt_local = None, opt_contentful = None\<rparr>
                      (opt_sources themeOptions)
      in case src of
           Local \<Rightarrow> with_default True (opt_local sources)
         | Contentful \<Rightarrow> with_default False (opt_contentful sources))"

definition dataSource ::
  "'edge host \<Rightarrow> theme_options \<Rightarrow> source \<Rightarrow> source_data \<times> console_entry list" where
  "dataSource h themeOptions src =
     (if enabled themeOptions src then query_source h src else (empty_source, []))"

definition netlify :: source_data where
  \<comment> \<open>\<^verbatim>\<open>dataSources.netlify\<close> is never assigned\<close>
  "netlify = empty_source"

definition byDate :: "article \<Rightarrow> article \<Rightarrow> int" where
  "byDate a b = article_dateForSEO b - article_dateForSEO a"

definition aggregated_articles :: "'edge host \<Rightarrow> theme_options \<Rightarrow> article list" where
  \<comment> \<open>the variable \<^verbatim>\<open>articles\<close>\<close>
  "aggregated_articles h themeOptions =
     js_sort byDate
       (src_articles (fst (dataSource h themeOptions Local))
        @ src_articles (fst (dataSource h themeOptions Contentful))
        @ src_articles netlify)"

definition aggregated_authors :: "'edge host \<Rightarrow> theme_options \<Rightarrow> author list" where
  \<comment> \<open>the variable \<^verbatim>\<open>authors\<close>\<close>
  "aggregated_authors h themeOptions =
     getUniqueListBy
       (src_authors (fst (dataSource h themeOptions Local))
        @ src_authors (fst (dataSource h themeOptions Contentful))
        @ src_authors netlify)
       author_name"

section \<open>Planning the pages (lines 144 to 244)\<close>

definition authorsThatWroteTheArticle ::
  "'edge host \<Rightarrow> author list \<Rightarrow> article \<Rightarrow> js_error + author list" where
  \<comment> \<open>the \<^verbatim>\<open>try\<close> block of lines 168 to 184, with its \<^verbatim>\<open>catch\<close>\<close>
  "authorsThatWroteTheArticle h authors article =
     (case filter_throwing
             (\<lambda>author.
                case article_author article of
                  None \<Rightarrow> Inl TypeError
                | Some s \<Rightarrow>
                    (let allAuthors = map (\<lambda>a. toLowerCase h (trim a)) (split_on comma s)
                     in some_throwing
                          (\<lambda>a. case author_name author of
                                 None \<Rightarrow> Inl TypeError
                               | Some n \<Rightarrow> Inr (a = toLowerCase h n))
                          allAuthors))
             authors of
        Inl error \<Rightarrow>
          Inl (AuthorNotFound (article_title article) (article_author article) error)
      | Inr found \<Rightarrow> Inr found)"

definition next_articles :: "'a list \<Rightarrow> nat \<Rightarrow> 'a list" where
  \<comment> \<open>the variable \<^verbatim>\<open>next\<close> of lines 190 to 196. \<^verbatim>\<open>articles[0]\<close> is read only when
      \<^verbatim>\<open>next\<close> has one element, hence only when \<^verbatim>\<open>articles\<close> is not empty\<close>
  "next_articles articles index =
     (let next0 = take 2 (drop (index + 1) articles);
          next1 = (if length next0 = 0 then take 2 articles else next0);
          next2 = (if length next1 = 1 \<and> length articles \<noteq> 2
                   then (case articles of [] \<Rightarrow> next1 | first # _ \<Rightarrow> next1 @ [first])
                   else next1)
      in if length articles = 1 then [] else next2)"

definition article_page ::
  "'edge host \<Rightarrow> jsstring \<Rightarrow> jsstring \<Rightarrow> author list \<Rightarrow> article list \<Rightarrow> article \<times> nat
     \<Rightarrow> js_error + page_call" where
  \<comment> \<open>the callback of \<^verbatim>\<open>articles.forEach((article, index) => ...)\<close>\<close>
  "article_page h basePath mailchimp authors articles =
     (\<lambda>(article, index).
        case authorsThatWroteTheArticle h authors article of
          Inl error \<Rightarrow> Inl error
        | Inr found \<Rightarrow>
            Inr (CreatePage (article_slug article) Article_template
                   \<lparr>ctx_article = article,
                    ctx_authors = found,
                    ctx_basePath = basePath,
                    ctx_slug = article_slug article,
                    ctx_id = article_id article,
                    ctx_title = article_title article,
                    ctx_mailchimp = mailchimp,
                    ctx_next = next_articles articles index\<rparr>))"

definition articlesTheAuthorHasWritten ::
  "'edge host \<Rightarrow> article list \<Rightarrow> author \<Rightarrow> js_error + article list" where
  "articlesTheAuthorHasWritten h articles author =
     (case filter_throwing
             (\<lambda>article.
                case article_author article of
                  None \<Rightarrow> Inl TypeError
                | Some s \<Rightarrow>
                    (case author_name author of
                       None \<Rightarrow> Inl TypeError
                     | Some n \<Rightarrow> Inr (js_includes (toLowerCase h s) (toLowerCase h n))))
             articles of
        Inl error \<Rightarrow> Inl error
      | Inr written \<Rightarrow> Inr (filter (\<lambda>article. \<not> article_secret article) written))"

definition author_page ::
  "'edge host \<Rightarrow> jsstring \<Rightarrow> int \<Rightarrow> article list \<Rightarrow> author \<Rightarrow> js_error + page_call" where
  \<comment> \<open>the callback of \<^verbatim>\<open>authors.forEach(author => ...)\<close>\<close>
  "author_page h authorsPath pageLength articles author =
     (case articlesTheAuthorHasWritten h articles author of
        Inl error \<Rightarrow> Inl error
      | Inr written \<Rightarrow>
          (case author_slug author of
             None \<Rightarrow> Inl TypeError
           | Some slug \<Rightarrow>
               Inr (CreatePaginatedPages written slug pageLength Author_template
                      (Author_context author
                         (slugify (toLowerCase h) (normalizeNFD h) slug authorsPath)
                         pageLength pageLength))))"

definition createPages :: "'edge host \<Rightarrow> theme_options \<Rightarrow> build" where
  "createPages h themeOptions =
     (let basePath = with_default (js ''/'') (opt_basePath themeOptions);
          authorsPath = with_default (js ''/authors'') (opt_authorsPath themeOptions);
          authorsPage = with_default True (opt_authorsPage themeOptions);
          pageLength = with_default 6 (opt_pageLength themeOptions);
          mailchimp = with_default [] (opt_mailchimp themeOptions);
          c0 = [Log (js ''Config basePath'') basePath]
               @ (if authorsPage then [Log (js ''Config authorsPath'') authorsPath] else [])
               @ snd (dataSource h themeOptions Local)
               @ snd (dataSource h themeOptions Contentful);
          articles = aggregated_articles h themeOptions;
          articlesThatArentSecret = filter (\<lambda>article. \<not> article_secret article) articles;
          authors = aggregated_authors h themeOptions
      in if length articles = 0 \<or> length authors = 0
         then \<lparr>console = c0, calls = [], thrown = Some MissingAuthorOrPost\<rparr>
         else
           (let c1 = c0 @ [Log (js ''Creating'') (js ''articles page'')];
                listing = CreatePaginatedPages articlesThatArentSecret basePath pageLength
                            Articles_template
                            (Articles_context authors basePath pageLength pageLength);
                c2 = c1 @ [Log (js ''Creating'') (js ''article posts'')]
            in case forEach_throwing (article_page h basePath mailchimp authors articles)
                      (zip articles [0..<length articles]) of
                 (posts, Some error) \<Rightarrow>
                   \<lparr>console = c2, calls = listing # posts, thrown = Some error\<rparr>
               | (posts, None) \<Rightarrow>
                   if authorsPage
                   then (case forEach_throwing
                                (author_page h authorsPath pageLength articles) authors of
                           (authorPages, r) \<Rightarrow>
                             \<lparr>console = c2 @ [Log (js ''Creating'') (js ''authors page'')],
                              calls = listing # posts @ authorPages,
                              thrown = r\<rparr>)
                   else \<lparr>console = c2, calls = listing # posts, thrown = None\<rparr>))"

section \<open>A host for concrete runs\<close>

text \<open>
  On strings of ASCII characters \<^verbatim>\<open>toLowerCase\<close> maps \<^verbatim>\<open>A-Z\<close> to \<^verbatim>\<open>a-z\<close> and
  \<^verbatim>\<open>normalize("NFD")\<close> changes nothing. For the test host an edge is an author or an
  article, and a normaliser throws a \<^verbatim>\<open>TypeError\<close> on an edge of the other shape.
\<close>

definition ascii_toLowerCase :: "jsstring \<Rightarrow> jsstring" where
  "ascii_toLowerCase s = map (\<lambda>c. if 0x41 \<le> c \<and> c \<le> 0x5A then c + 0x20 else c) s"

definition nfd_e_acute :: "jsstring \<Rightarrow> jsstring" where
  \<comment> \<open>\<^verbatim>\<open>normalize("NFD")\<close> on a string whose only character outside ASCII is \<^verbatim>\<open>U+00E9\<close>
      (e with acute): it becomes \<^verbatim>\<open>e\<close> followed by the combining acute \<^verbatim>\<open>U+0301\<close>\<close>
  "nfd_e_acute s = concat (map (\<lambda>c. if c = 0xE9 then [0x65, 0x301] else [c]) s)"

definition test_host ::
  "(source \<Rightarrow> kind \<Rightarrow> js_error + (author + article) list option)
     \<Rightarrow> (author + article) host" where
  "test_host results =
     \<lparr>toLowerCase = ascii_toLowerCase,
      normalizeNFD = (\<lambda>s. s),
      graphql = results,
      normalize_authors = (\<lambda>src e. case e of Inl a \<Rightarrow> Inr a | Inr _ \<Rightarrow> Inl TypeError),
      normalize_articles = (\<lambda>src e. case e of Inl _ \<Rightarrow> Inl TypeError | Inr a \<Rightarrow> Inr a)\<rparr>"

definition edges_of ::
  "(author + article) list \<Rightarrow> (author + article) list \<Rightarrow> kind
     \<Rightarrow> js_error + (author + article) list option" where
  "edges_of authorEdges articleEdges k =
     Inr (Some (case k of Authors \<Rightarrow> authorEdges | Articles \<Rightarrow> articleEdges))"

definition local_host :: "author list \<Rightarrow> article list \<Rightarrow> (author + article) host" where
  \<comment> \<open>the local source serves the given records; no other source answers\<close>
  "local_host authors articles =
     test_host (\<lambda>src. case src of
                  Local \<Rightarrow> edges_of (map Inl authors) (map Inr articles)
                | Contentful \<Rightarrow> (\<lambda>k. Inl (Thrown (js ''no such source''))))"

definition offline_local_host :: "author list \<Rightarrow> article list \<Rightarrow> (author + article) host" where
  \<comment> \<open>the query of the local source is rejected; Contentful serves the given records\<close>
  "offline_local_host authors articles =
     test_host (\<lambda>src. case src of
                  Local \<Rightarrow> (\<lambda>k. Inl (Thrown (js ''offline'')))
                | Contentful \<Rightarrow> edges_of (map Inl authors) (map Inr articles))"

definition empty_local_host :: "author list \<Rightarrow> article list \<Rightarrow> (author + article) host" where
  \<comment> \<open>the local source answers with no edge; Contentful serves the given records\<close>
  "empty_local_host authors articles =
     test_host (\<lambda>src. case src of
                  Local \<Rightarrow> edges_of [] []
                | Contentful \<Rightarrow> edges_of (map Inl authors) (map Inr articles))"

definition misshapen_articles_host :: "author list \<Rightarrow> (author + article) host" where
  \<comment> \<open>every source serves the given authors, and one article edge that its normaliser
      rejects\<close>
  "misshapen_articles_host authors =
     test_host (\<lambda>src. edges_of (map Inl authors)
                        [Inl \<lparr>author_name = None, author_slug = None\<rparr>])"

definition default_options :: theme_options where
  \<comment> \<open>\<^verbatim>\<open>themeOptions = {}\<close>\<close>
  "default_options =
     \<lparr>opt_basePath = None, opt_authorsPath = None, opt_authorsPage = None,
      opt_pageLength = None, opt_sources = None, opt_mailchimp = None\<rparr>"

definition both_sources :: theme_options where
  \<comment> \<open>\<^verbatim>\<open>themeOptions = { sources: { local: true, contentful: true } }\<close>\<close>
  "both_sources =
     default_options
       \<lparr>opt_sources := Some \<lparr>opt_local = Some True, opt_contentful = Some True\<rparr>\<rparr>"

definition mk_author :: "string \<Rightarrow> string \<Rightarrow> author" where
  "mk_author name slug = \<lparr>author_name = Some (js name), author_slug = Some (js slug)\<rparr>"

definition mk_article :: "string \<Rightarrow> string \<Rightarrow> int \<Rightarrow> bool \<Rightarrow> article" where
  "mk_article title authorField date secret =
     \<lparr>article_id = js title, article_title = js title, article_slug = js (''/'' @ title),
      article_author = Some (js authorField), article_dateForSEO = date,
      article_secret = secret\<rparr>"

section \<open>Decimal numerals, read back\<close>

text \<open>
  What it is for a string to be the decimal numeral of a number: its characters are the
  digits \<^verbatim>\<open>0\<close> to \<^verbatim>\<open>9\<close>, the first is not \<^verbatim>\<open>0\<close>, and read in base ten it gives the number.
\<close>

definition is_digit :: "jschar \<Rightarrow> bool" where
  "is_digit c = (0x30 \<le> c \<and> c \<le> 0x39)"

definition read_decimal :: "jsstring \<Rightarrow> nat" where
  "read_decimal s = foldl (\<lambda>a c. 10 * a + (unat c - 48)) 0 s"

section \<open>The slug builder as the specification words it\<close>

text \<open>
  The specification describes \<open>slugify\<close> by what is removed and by runs of characters:
  the diacritical marks (the combining characters \<^verbatim>\<open>U+0300\<close> to \<^verbatim>\<open>U+036F\<close> that the
  canonical decomposition separates from their letters) are dropped, every maximal run
  of characters outside \<^verbatim>\<open>[a-z0-9]\<close> becomes one hyphen, hyphens are trimmed at both ends,
  and every run of consecutive slashes becomes one slash. \<open>runs P s\<close> cuts \<open>s\<close> into its
  maximal runs of characters on which \<open>P\<close> has the same value.
\<close>

definition diacritical_marks :: "jschar set" where
  "diacritical_marks = {0x300 .. 0x36F}"

primrec spec_strip_diacritics :: "jsstring \<Rightarrow> jsstring" where
  "spec_strip_diacritics [] = []"
| "spec_strip_diacritics (c # cs) =
     (if c \<in> diacritical_marks then spec_strip_diacritics cs
      else c # spec_strip_diacritics cs)"

function runs :: "('a \<Rightarrow> bool) \<Rightarrow> 'a list \<Rightarrow> 'a list list" where
  "runs P [] = []"
| "runs P (x # xs) =
     (x # takeWhile (\<lambda>y. P y = P x) xs) # runs P (dropWhile (\<lambda>y. P y = P x) xs)"
  by pat_completeness auto
termination
  by (relation "measure (\<lambda>(P, s). length s)")
     (auto simp: le_imp_less_Suc length_dropWhile_le)

definition spec_hyphenate :: "jsstring \<Rightarrow> jsstring" where
  "spec_hyphenate s =
     concat (map (\<lambda>run. if is_az09 (hd run) then run else [hyphen]) (runs is_az09 s))"

definition spec_trim_hyphens :: "jsstring \<Rightarrow> jsstring" where
  "spec_trim_hyphens s =
     rev (dropWhile (\<lambda>c. c = hyphen) (rev (dropWhile (\<lambda>c. c = hyphen) s)))"

definition spec_collapse_slashes :: "jsstring \<Rightarrow> jsstring" where
  "spec_collapse_slashes s =
     concat (map (\<lambda>run. if hd run = slash then [slash] else run) (runs (\<lambda>c. c = slash) s))"

definition spec_slugify ::
  "(jsstring \<Rightarrow> jsstring) \<Rightarrow> (jsstring \<Rightarrow> jsstring) \<Rightarrow> jsstring \<Rightarrow> jsstring \<Rightarrow> jsstring" where
  "spec_slugify lower nfd str base =
     spec_collapse_slashes
       (base @ [slash] @
        spec_trim_hyphens (spec_hyphenate (spec_strip_diacritics (nfd (lower str)))))"

fun no_adjacent :: "'a \<Rightarrow> 'a list \<Rightarrow> bool" where
  \<comment> \<open>no two neighbours are both \<open>h\<close>\<close>
  "no_adjacent h (x # y # zs) = ((x \<noteq> h \<or> y \<noteq> h) \<and> no_adjacent h (y # zs))"
| "no_adjacent h zs = True"

section \<open>Properties\<close>

subsection \<open>Pagination paths\<close>

lemma decimal_examples:
  "decimal 0 = js ''0''" "decimal 7 = js ''7''" "decimal 120 = js ''120''"
  by (simp_all add: decimal.simps digit_def js_def)

lemma unat_digit: "d < 10 \<Longrightarrow> unat (digit d) = 48 + d"
  by (simp add: digit_def unat_word_ariths unat_of_nat)

lemma is_digit_digit: "d < 10 \<Longrightarrow> is_digit (digit d)"
  by (simp add: is_digit_def word_le_nat_alt unat_digit)

lemma decimal_not_empty: "decimal n \<noteq> []"
  by (subst decimal.simps) simp

lemma decimal_digits: "list_all is_digit (decimal n)"
proof (induction n rule: decimal.induct)
  case (1 n)
  show ?case
  proof (cases "n < 10")
    case True
    then show ?thesis by (subst decimal.simps) (simp add: is_digit_digit)
  next
    case False
    with 1 show ?thesis by (subst decimal.simps) (simp add: is_digit_digit)
  qed
qed

lemma read_decimal_snoc: "read_decimal (s @ [c]) = 10 * read_decimal s + (unat c - 48)"
  by (simp add: read_decimal_def)

lemma read_decimal_decimal: "read_decimal (decimal n) = n"
proof (induction n rule: decimal.induct)
  case (1 n)
  show ?case
  proof (cases "n < 10")
    case True
    then show ?thesis
      by (subst decimal.simps) (simp add: read_decimal_def unat_digit)
  next
    case False
    with 1 show ?thesis
      by (subst decimal.simps) (simp add: read_decimal_snoc unat_digit)
  qed
qed

lemma decimal_no_leading_zero: "0 < n \<Longrightarrow> hd (decimal n) \<noteq> 0x30"
proof (induction n rule: decimal.induct)
  case (1 n)
  show ?case
  proof (cases "n < 10")
    case True
    with "1.prems" have "unat (digit n) \<noteq> unat (0x30 :: jschar)"
      by (simp add: unat_digit)
    then have "digit n \<noteq> 0x30" by auto
    with True show ?thesis by (subst decimal.simps) simp
  next
    case False
    then have "0 < n div 10" by simp
    with False "1.IH" have "hd (decimal (n div 10)) \<noteq> 0x30" by simp
    with False show ?thesis
      by (subst decimal.simps) (simp add: decimal_not_empty)
  qed
qed

lemma ToString_safe: "0 \<le> n \<Longrightarrow> n < 2 ^ 53 \<Longrightarrow> ToString large n = decimal (nat n)"
  by (simp add: ToString_def)

text \<open>
  Claim C3. For every page index and base path, \<open>buildPaginatedPath\<close> returns the base
  path itself when the index is not greater than 1; for an index \<open>n\<close> above 1 it appends
  \<^verbatim>\<open>page/{n}\<close> to the base path \<^verbatim>\<open>/\<close> and \<^verbatim>\<open>/page/{n}\<close> to any other base path. On the base
  path \<^verbatim>\<open>/\<close> the result is \<^verbatim>\<open>/page/{n}\<close> for \<open>n > 1\<close> and \<^verbatim>\<open>/\<close> for \<open>n = 1\<close>. Here \<^verbatim>\<open>{n}\<close> is
  \<^verbatim>\<open>ToString(n)\<close>; for an index below \<open>2^53\<close> it is the decimal numeral of \<open>n\<close>: digits
  only, no leading zero, and \<open>n\<close> when read back. Page 12 is at \<^verbatim>\<open>/page/12\<close>.
\<close>

theorem buildPaginatedPath_paths:
  "(index \<le> 1 \<longrightarrow> buildPaginatedPath large index b = b)
   \<and> (1 < index \<and> b = js ''/'' \<longrightarrow>
        buildPaginatedPath large index b = b @ js ''page/'' @ ToString large index)
   \<and> (1 < index \<and> b \<noteq> js ''/'' \<longrightarrow>
        buildPaginatedPath large index b = b @ js ''/page/'' @ ToString large index)
   \<and> (1 < index \<longrightarrow>
        buildPaginatedPath large index (js ''/'') = js ''/page/'' @ ToString large index)
   \<and> buildPaginatedPath large 1 (js ''/'') = js ''/''
   \<and> (1 < index \<and> index < 2 ^ 53 \<longrightarrow>
        list_all is_digit (ToString large index)
        \<and> hd (ToString large index) \<noteq> 0x30
        \<and> int (read_decimal (ToString large index)) = index)
   \<and> buildPaginatedPath large 12 (js ''/'') = js ''/page/12''
   \<and> buildPaginatedPath large 120 (js ''/blog'') = js ''/blog/page/120''"
proof (intro conjI impI)
  assume "1 < index \<and> index < 2 ^ 53"
  then have safe: "ToString large index = decimal (nat index)" and pos: "0 < nat index"
    by (simp_all add: ToString_safe)
  show "list_all is_digit (ToString large index)"
    by (simp add: safe decimal_digits)
  show "hd (ToString large index) \<noteq> 0x30"
    using decimal_no_leading_zero [OF pos] by (simp add: safe)
  show "int (read_decimal (ToString large index)) = index"
    using pos by (simp add: safe read_decimal_decimal)
next
  show "buildPaginatedPath large 12 (js ''/'') = js ''/page/12''"
    by (simp add: buildPaginatedPath_def ToString_def js_def decimal.simps digit_def)
  show "buildPaginatedPath large 120 (js ''/blog'') = js ''/blog/page/120''"
    by (simp add: buildPaginatedPath_def ToString_def js_def decimal.simps digit_def)
qed (simp_all add: buildPaginatedPath_def js_def)

theorem buildPaginatedPath_paths_witness:
  "(1::int) < 12 \<and> (12::int) < 2 ^ 53 \<and> (0::int) \<le> 1 \<and> js ''/blog'' \<noteq> js ''/''
   \<and> buildPaginatedPath (\<lambda>n. []) 12 (js ''/'') = js ''/page/12''
   \<and> buildPaginatedPath (\<lambda>n. []) 12 (js ''/blog'') = js ''/blog/page/12''
   \<and> buildPaginatedPath (\<lambda>n. []) 0 (js ''/blog'') = js ''/blog''
   \<and> ToString (\<lambda>n. []) 12 = js ''12''
   \<and> list_all is_digit (js ''12'') \<and> hd (js ''12'') \<noteq> 0x30
   \<and> read_decimal (js ''12'') = 12"
proof -
  have numeral: "ToString (\<lambda>n. []) 12 = js ''12''"
    by (simp add: ToString_def js_def decimal.simps digit_def)
  from buildPaginatedPath_paths [of 12 "\<lambda>n. []" "js ''/blog''"]
       buildPaginatedPath_paths [of 0 "\<lambda>n. []" "js ''/blog''"]
  show ?thesis
    unfolding numeral by (simp add: js_def)
qed

subsection \<open>The articles suggested next\<close>

lemma min_length_2_eq_1: "min (length xs) 2 = Suc 0 \<longleftrightarrow> length xs = Suc 0"
  by (auto simp: min_def)

lemma first_or_hd:
  "xs \<noteq> [] \<Longrightarrow> (case xs of [] \<Rightarrow> ys | first # _ \<Rightarrow> ys @ [first]) = ys @ [hd xs]"
  by (cases xs) simp_all

lemma next_articles_general:
  "next_articles articles i =
     (if length articles = 1 then []
      else if take 2 (drop (i + 1) articles) = [] then take 2 articles
      else if length (take 2 (drop (i + 1) articles)) = 1 \<and> length articles \<noteq> 2
           then take 2 (drop (i + 1) articles) @ [hd articles]
      else take 2 (drop (i + 1) articles))"
proof (cases "articles = []")
  case True
  then show ?thesis by (simp add: next_articles_def)
next
  case False
  show ?thesis
  proof (cases "take 2 (drop (i + 1) articles) = []")
    case True
    with False show ?thesis
      by (simp add: next_articles_def Let_def min_length_2_eq_1 del: take_eq_Nil)
  next
    case nonempty: False
    with False show ?thesis
      by (simp add: next_articles_def Let_def first_or_hd del: take_eq_Nil)
  qed
qed

text \<open>
  Claim C2. For every article list and index \<open>i\<close>, the suggestion for the article at
  index \<open>i\<close> is empty when the list has one article; otherwise it is the up to two
  articles at indices \<open>i + 1\<close> and \<open>i + 2\<close>, replaced by the first two articles of the
  list when there is none, and followed by the first article when there is exactly one
  and the list does not have two articles. For \<open>[A, B, C, D]\<close> the suggestion for \<open>C\<close> is
  \<open>[D, A]\<close>; for a list of two articles the suggestion for the first is the second alone.
\<close>

theorem next_articles_cases:
  "next_articles articles i =
     (if length articles = 1 then []
      else if take 2 (drop (i + 1) articles) = [] then take 2 articles
      else if length (take 2 (drop (i + 1) articles)) = 1 \<and> length articles \<noteq> 2
           then take 2 (drop (i + 1) articles) @ [hd articles]
      else take 2 (drop (i + 1) articles))
   \<and> next_articles [A, B, C, D] 2 = [D, A]
   \<and> next_articles [A, B] 0 = [B]"
proof (intro conjI)
  show "next_articles [A, B, C, D] 2 = [D, A]"
    by (simp add: next_articles_def)
  show "next_articles [A, B] 0 = [B]"
    by (simp add: next_articles_def)
qed (rule next_articles_general)

text \<open>
  Claim C9. In a list of exactly two articles the suggestion for the second article is
  the whole list: the wrap to the first two articles includes the article itself.
\<close>

theorem next_of_last_of_two: "next_articles [first, second] 1 = [first, second]"
  by (simp add: next_articles_def)

subsection \<open>The guard on empty aggregates\<close>

text \<open>
  Claim C5. When the aggregated article list or the deduplicated author list is empty,
  the build throws the configuration error and has made no page call; so it does when
  there are articles but no author.
\<close>

theorem createPages_requires_author_and_post:
  "aggregated_articles h themeOptions = [] \<or> aggregated_authors h themeOptions = [] \<Longrightarrow>
     calls (createPages h themeOptions) = []
     \<and> thrown (createPages h themeOptions) = Some MissingAuthorOrPost"
  by (auto simp: createPages_def Let_def)

theorem createPages_requires_author_and_post_witness:
  "aggregated_articles (local_host [] [mk_article ''post'' ''Alice'' 1 False]) default_options
     = [mk_article ''post'' ''Alice'' 1 False]
   \<and> aggregated_authors (local_host [] [mk_article ''post'' ''Alice'' 1 False]) default_options
     = []
   \<and> calls (createPages (local_host [] [mk_article ''post'' ''Alice'' 1 False]) default_options)
     = []
   \<and> thrown (createPages (local_host [] [mk_article ''post'' ''Alice'' 1 False]) default_options)
     = Some MissingAuthorOrPost"
proof -
  let ?h = "local_host [] [mk_article ''post'' ''Alice'' 1 False]"
  have articles:
    "aggregated_articles ?h default_options = [mk_article ''post'' ''Alice'' 1 False]"
    by (simp add: aggregated_articles_def dataSource_def enabled_def default_options_def
        with_default_def query_source_def local_host_def test_host_def edges_of_def
        edges_map_def netlify_def empty_source_def js_sort_def)
  have authors: "aggregated_authors ?h default_options = []"
    by (simp add: aggregated_authors_def dataSource_def enabled_def default_options_def
        with_default_def query_source_def local_host_def test_host_def edges_of_def
        edges_map_def netlify_def empty_source_def getUniqueListBy_def new_Map_def)
  from authors have "aggregated_articles ?h default_options = []
      \<or> aggregated_authors ?h default_options = []" ..
  from createPages_requires_author_and_post [OF this] articles authors
  show ?thesis by simp
qed

subsection \<open>Deduplication of authors\<close>

lemma map_of_map_set: "map_of (map_set m k v) = (map_of m)(k \<mapsto> v)"
  by (induction m) (auto simp: fun_eq_iff)

lemma keys_map_set:
  "map fst (map_set m k v) = (if k \<in> set (map fst m) then map fst m else map fst m @ [k])"
  by (induction m) (force+)

lemma distinct_keys_map_set:
  "distinct (map fst m) \<Longrightarrow> distinct (map fst (map_set m k v))"
  by (simp add: keys_map_set)

lemma distinct_keys_fold:
  "distinct (map fst m) \<Longrightarrow> distinct (map fst (foldl (\<lambda>m (k, v). map_set m k v) m es))"
  by (induction es arbitrary: m) (auto simp: distinct_keys_map_set)

lemma map_of_fold:
  "map_of (foldl (\<lambda>m (k, v). map_set m k v) m es) = map_of m ++ map_of (rev es)"
  by (induction es arbitrary: m) (auto simp: map_of_map_set)

lemma distinct_keys_new_Map: "distinct (map fst (new_Map es))"
  by (simp add: new_Map_def distinct_keys_fold)

lemma map_of_new_Map: "map_of (new_Map es) = map_of (rev es)"
  by (simp add: new_Map_def map_of_fold)

lemma map_of_keyed:
  "map_of (map (\<lambda>item. (key item, item)) xs) k = find (\<lambda>x. key x = k) xs"
  by (induction xs) auto

lemma new_Map_keyed_entry:
  "(k, a) \<in> set (new_Map (map (\<lambda>item. (key item, item)) arr))
     \<longleftrightarrow> find (\<lambda>x. key x = k) (rev arr) = Some a"
proof -
  have "(k, a) \<in> set (new_Map (map (\<lambda>item. (key item, item)) arr))
      \<longleftrightarrow> map_of (new_Map (map (\<lambda>item. (key item, item)) arr)) k = Some a"
    using distinct_keys_new_Map by (metis map_of_eq_Some_iff)
  then show ?thesis
    by (simp add: map_of_new_Map rev_map map_of_keyed)
qed

lemma find_key: "find (\<lambda>x. key x = k) xs = Some a \<Longrightarrow> key a = k"
  by (auto simp: find_Some_iff)

lemma keys_of_unique: "map key (getUniqueListBy arr key) = map fst (new_Map (map (\<lambda>item. (key item, item)) arr))"
  unfolding getUniqueListBy_def map_map
  by (rule map_cong [OF refl]) (auto simp: new_Map_keyed_entry dest: find_key)

lemma getUniqueListBy_distinct: "distinct (map key (getUniqueListBy arr key))"
  by (simp add: keys_of_unique distinct_keys_new_Map)

lemma getUniqueListBy_set:
  "set (getUniqueListBy arr key) = {a. find (\<lambda>x. key x = key a) (rev arr) = Some a}"
proof (intro set_eqI iffI)
  fix a assume "a \<in> set (getUniqueListBy arr key)"
  then obtain k where "(k, a) \<in> set (new_Map (map (\<lambda>item. (key item, item)) arr))"
    by (auto simp: getUniqueListBy_def)
  then have f: "find (\<lambda>x. key x = k) (rev arr) = Some a"
    by (simp add: new_Map_keyed_entry)
  with find_key [OF f] show "a \<in> {a. find (\<lambda>x. key x = key a) (rev arr) = Some a}"
    by simp
next
  fix a assume "a \<in> {a. find (\<lambda>x. key x = key a) (rev arr) = Some a}"
  then have "(key a, a) \<in> set (new_Map (map (\<lambda>item. (key item, item)) arr))"
    by (simp add: new_Map_keyed_entry)
  then show "a \<in> set (getUniqueListBy arr key)"
    by (force simp: getUniqueListBy_def)
qed

text \<open>
  Claim C4. For every concatenation of the author lists of the sources, the deduplicated
  list holds no two authors of the same name (names compared as they are, case
  included), and its entries are exactly the authors that are the last of their name in
  the concatenation.
\<close>

theorem authors_deduplicated_last_wins:
  "distinct (map author_name (getUniqueListBy (localAuthors @ contentfulAuthors @ netlifyAuthors) author_name))
   \<and> set (getUniqueListBy (localAuthors @ contentfulAuthors @ netlifyAuthors) author_name)
       = {a. find (\<lambda>x. author_name x = author_name a)
               (rev (localAuthors @ contentfulAuthors @ netlifyAuthors)) = Some a}"
  by (simp only: getUniqueListBy_distinct getUniqueListBy_set simp_thms)

subsection \<open>Slugs\<close>

text \<open>\<open>runs\<close> cuts a string into pieces that are not empty, on each of which the
  predicate is constant, and that cannot be extended.\<close>

lemma concat_runs: "concat (runs P s) = s"
  by (induction P s rule: runs.induct) simp_all

lemma runs_homogeneous:
  "r \<in> set (runs P s) \<Longrightarrow> r \<noteq> [] \<and> (\<forall>x\<in>set r. P x = P (hd r))"
proof (induction P s rule: runs.induct)
  case (1 P)
  then show ?case by simp
next
  case (2 P x xs)
  from "2.prems" consider
    "r = x # takeWhile (\<lambda>y. P y = P x) xs"
    | "r \<in> set (runs P (dropWhile (\<lambda>y. P y = P x) xs))"
    by (simp only: runs.simps set_simps insert_iff) blast
  then show ?case
  proof cases
    case 1
    show ?thesis
    proof (intro conjI ballI)
      show "r \<noteq> []" using 1 by simp
      fix y assume "y \<in> set r"
      with 1 have "y = x \<or> y \<in> set (takeWhile (\<lambda>y. P y = P x) xs)" by simp
      then have "P y = P x" by (blast dest: set_takeWhileD)
      with 1 show "P y = P (hd r)" by simp
    qed
  next
    case 2
    then show ?thesis by (rule "2.IH")
  qed
qed

lemma runs_maximal:
  "runs P s = r # r' # rs \<Longrightarrow> P (hd r') \<noteq> P (hd r)"
proof (cases s)
  case Nil
  assume "runs P s = r # r' # rs"
  with Nil show ?thesis by simp
next
  case (Cons x xs)
  let ?d = "dropWhile (\<lambda>y. P y = P x) xs"
  assume "runs P s = r # r' # rs"
  with Cons have r: "hd r = x" and rest: "runs P ?d = r' # rs"
    by auto
  from rest obtain y ys where d: "?d = y # ys"
    by (cases ?d) (simp_all del: dropWhile_eq_Nil_conv)
  with rest have r': "hd r' = y"
    by (auto simp del: dropWhile_eq_Nil_conv)
  from d have "?d \<noteq> []" by (simp del: dropWhile_eq_Nil_conv)
  from hd_dropWhile [OF this] d have "P y \<noteq> P x"
    by (simp del: dropWhile_eq_Nil_conv)
  with r r' show ?thesis by simp
qed

lemma not_az09_hyphen: "\<not> is_az09 hyphen"
  by (simp add: is_az09_def hyphen_def)

lemma replace_class_runs_skip:
  "\<forall>y\<in>set ys. \<not> C y \<Longrightarrow> replace_class_runs C r (ys @ zs) = ys @ replace_class_runs C r zs"
  by (induction ys) auto

lemma replace_class_runs_runs:
  "replace_class_runs (\<lambda>c. \<not> P c) r s
     = concat (map (\<lambda>run. if P (hd run) then run else r) (runs P s))"
proof (induction P s rule: runs.induct)
  case (1 P)
  show ?case by simp
next
  case (2 P x xs)
  show ?case
  proof (cases "P x")
    case True
    then have eq: "(\<lambda>y. P y = P x) = P" by auto
    have "replace_class_runs (\<lambda>c. \<not> P c) r (x # xs)
        = x # replace_class_runs (\<lambda>c. \<not> P c) r (takeWhile P xs @ dropWhile P xs)"
      using True by simp
    also have "\<dots> = x # takeWhile P xs @ replace_class_runs (\<lambda>c. \<not> P c) r (dropWhile P xs)"
      by (subst replace_class_runs_skip) (auto dest: set_takeWhileD)
    finally show ?thesis
      using True "2.IH" by (simp add: eq)
  next
    case False
    then have eq: "(\<lambda>y. P y = P x) = (\<lambda>c. \<not> P c)" by auto
    from False "2.IH" show ?thesis by (simp add: eq)
  qed
qed

lemma replace_non_az09_spec: "replace_non_az09 s = spec_hyphenate s"
  by (simp add: replace_non_az09_def spec_hyphenate_def replace_class_runs_runs)

text \<open>The hyphens put in by the replacement are never neighbours.\<close>

lemma no_adjacent_Cons:
  "no_adjacent h (x # ys) \<longleftrightarrow> (ys \<noteq> [] \<and> x = h \<longrightarrow> hd ys \<noteq> h) \<and> no_adjacent h ys"
  by (cases ys) auto

lemma no_adjacent_snoc:
  "no_adjacent h (ys @ [x]) \<longleftrightarrow> (ys \<noteq> [] \<and> x = h \<longrightarrow> last ys \<noteq> h) \<and> no_adjacent h ys"
  by (induction h ys rule: no_adjacent.induct) auto

lemma replace_class_runs_separated:
  "C h \<Longrightarrow>
     no_adjacent h (replace_class_runs C [h] s)
     \<and> (replace_class_runs C [h] s \<noteq> [] \<and> hd (replace_class_runs C [h] s) = h
          \<longrightarrow> s \<noteq> [] \<and> C (hd s))"
proof (induction C "[h]" s rule: replace_class_runs.induct)
  case (1 C)
  show ?case by simp
next
  case (2 C c cs)
  show ?case
  proof (cases "C c")
    case True
    have "dropWhile C cs = [] \<or> \<not> C (hd (dropWhile C cs))"
      using hd_dropWhile [of C cs] by blast
    with True 2 show ?thesis
      by (auto simp: no_adjacent_Cons)
  next
    case False
    with 2 show ?thesis
      by (auto simp: no_adjacent_Cons)
  qed
qed

lemma no_adjacent_replace_non_az09: "no_adjacent hyphen (replace_non_az09 s)"
  using replace_class_runs_separated [of "\<lambda>c. \<not> is_az09 c" hyphen s]
  by (simp add: replace_non_az09_def not_az09_hyphen)

lemma trim_front:
  "no_adjacent h s \<Longrightarrow>
     dropWhile (\<lambda>c. c = h) s = (case s of [] \<Rightarrow> [] | c # cs \<Rightarrow> if c = h then cs else s)"
  by (cases s) (auto simp: no_adjacent_Cons dropWhile_eq_self_iff)

lemma trim_back:
  "no_adjacent h s \<Longrightarrow>
     rev (dropWhile (\<lambda>c. c = h) (rev s)) = (if s \<noteq> [] \<and> last s = h then butlast s else s)"
proof (cases s rule: rev_cases)
  case Nil
  then show ?thesis by simp
next
  case (snoc ys y)
  assume "no_adjacent h s"
  with snoc have "ys \<noteq> [] \<and> y = h \<longrightarrow> last ys \<noteq> h"
    by (simp add: no_adjacent_snoc)
  then have "y = h \<Longrightarrow> dropWhile (\<lambda>c. c = h) (rev ys) = rev ys"
    by (cases ys rule: rev_cases) auto
  with snoc show ?thesis by auto
qed

lemma no_adjacent_tl: "no_adjacent h (c # cs) \<Longrightarrow> no_adjacent h cs"
  by (simp add: no_adjacent_Cons)

lemma strip_edge_hyphens_trims:
  assumes "no_adjacent hyphen s"
  shows "strip_edge_hyphens s = spec_trim_hyphens s"
proof -
  let ?s1 = "case s of [] \<Rightarrow> [] | c # cs \<Rightarrow> if c = hyphen then cs else s"
  from assms have "no_adjacent hyphen ?s1"
    by (cases s) (auto dest: no_adjacent_tl)
  then show ?thesis
    unfolding strip_edge_hyphens_def spec_trim_hyphens_def Let_def
    by (simp only: trim_front [OF assms] trim_back)
qed


lemma collapse_slashes_other:
  "c \<noteq> slash \<Longrightarrow> collapse_slashes (c # cs) = c # collapse_slashes cs"
  by (cases cs) simp_all

lemma collapse_slashes_skip:
  "\<forall>y\<in>set ys. y \<noteq> slash \<Longrightarrow> collapse_slashes (ys @ zs) = ys @ collapse_slashes zs"
  by (induction ys) (simp_all add: collapse_slashes_other)

lemma collapse_slashes_slash:
  "collapse_slashes (slash # cs) = slash # collapse_slashes (dropWhile (\<lambda>x. x = slash) cs)"
proof (cases cs)
  case Nil
  then show ?thesis by simp
next
  case (Cons d ds)
  then show ?thesis by (simp add: collapse_slashes_other)
qed

lemma collapse_slashes_runs: "collapse_slashes s = spec_collapse_slashes s"
  unfolding spec_collapse_slashes_def
proof (induction "\<lambda>c. c = slash" s rule: runs.induct)
  case 1
  show ?case by simp
next
  case (2 x xs)
  show ?case
  proof (cases "x = slash")
    case True
    then have eq: "(\<lambda>y. (y = slash) = (x = slash)) = (\<lambda>y. y = slash)" by auto
    from True 2 show ?thesis
      by (simp add: eq collapse_slashes_slash)
  next
    case False
    then have eq: "(\<lambda>y. (y = slash) = (x = slash)) = (\<lambda>y. y \<noteq> slash)" by auto
    have "collapse_slashes (x # xs)
        = x # collapse_slashes (takeWhile (\<lambda>y. y \<noteq> slash) xs @ dropWhile (\<lambda>y. y \<noteq> slash) xs)"
      using False by (simp add: collapse_slashes_other)
    also have "\<dots> = x # takeWhile (\<lambda>y. y \<noteq> slash) xs
                       @ collapse_slashes (dropWhile (\<lambda>y. y \<noteq> slash) xs)"
      by (subst collapse_slashes_skip) (auto dest: set_takeWhileD)
    finally show ?thesis
      using False 2 by (simp add: eq)
  qed
qed

lemma strip_combining_marks_spec: "strip_combining_marks s = spec_strip_diacritics s"
  by (induction s)
     (simp_all add: strip_combining_marks_def is_combining_mark_def diacritical_marks_def)

lemma spec_strip_diacritics_set:
  "set (spec_strip_diacritics s) = set s - diacritical_marks"
  by (induction s) auto

text \<open>
  Claim C7. For every input string and base path, \<open>slugify\<close> returns the base path, a
  slash and the transformed string, with every run of consecutive slashes collapsed to
  one slash; the transformation lowercases, strips the diacritical marks, replaces every
  maximal run of characters outside \<^verbatim>\<open>[a-z0-9]\<close> by one hyphen and trims the hyphens at
  both ends. The lowercasing and the canonical decomposition are those of the engine,
  whatever they are. So \<^verbatim>\<open>--Hello,  World!\<close> under \<^verbatim>\<open>/authors/\<close> is \<^verbatim>\<open>/authors/hello-world\<close>,
  the combining acute accent \<^verbatim>\<open>U+0301\<close> put after the \<^verbatim>\<open>e\<close> of \<^verbatim>\<open>Cafes du Monde\<close> disappears,
  and each \<^verbatim>\<open>U+00E9\<close> (e with acute) of a string loses its accent once decomposed.
\<close>

theorem slugify_as_specified:
  "slugify lower nfd str base = spec_slugify lower nfd str base
   \<and> slugify ascii_toLowerCase (\<lambda>s. s) (js ''--Hello,  World!'') (js ''/authors/'')
       = js ''/authors/hello-world''
   \<and> slugify ascii_toLowerCase (\<lambda>s. s) (js ''Cafe'' @ [0x301] @ js ''s du Monde'')
         (js ''/authors'')
       = js ''/authors/cafes-du-monde''
   \<and> slugify ascii_toLowerCase nfd_e_acute (js ''Caf'' @ [0xE9] @ js '' Ol'' @ [0xE9])
         (js ''/authors/'')
       = js ''/authors/cafe-ole''"
proof (intro conjI)
  show "slugify lower nfd str base = spec_slugify lower nfd str base"
    by (simp add: slugify_def spec_slugify_def replace_non_az09_spec [symmetric]
        collapse_slashes_runs [symmetric] strip_combining_marks_spec [symmetric]
        strip_edge_hyphens_trims [OF no_adjacent_replace_non_az09, symmetric])
  show "slugify ascii_toLowerCase (\<lambda>s. s) (js ''--Hello,  World!'') (js ''/authors/'')
          = js ''/authors/hello-world''"
    by (simp add: slugify_def ascii_toLowerCase_def js_def strip_combining_marks_def
        is_combining_mark_def replace_non_az09_def is_az09_def hyphen_def slash_def
        strip_edge_hyphens_def)
  show "slugify ascii_toLowerCase (\<lambda>s. s) (js ''Cafe'' @ [0x301] @ js ''s du Monde'')
          (js ''/authors'')
        = js ''/authors/cafes-du-monde''"
    by (simp add: slugify_def ascii_toLowerCase_def js_def strip_combining_marks_def
        is_combining_mark_def replace_non_az09_def is_az09_def hyphen_def slash_def
        strip_edge_hyphens_def)
  show "slugify ascii_toLowerCase nfd_e_acute (js ''Caf'' @ [0xE9] @ js '' Ol'' @ [0xE9])
          (js ''/authors/'')
        = js ''/authors/cafe-ole''"
    by (simp add: slugify_def ascii_toLowerCase_def nfd_e_acute_def js_def
        strip_combining_marks_def is_combining_mark_def replace_non_az09_def is_az09_def
        hyphen_def slash_def strip_edge_hyphens_def)
qed

subsection \<open>Callbacks that do not throw\<close>

lemma some_throwing_total:
  "\<forall>x\<in>set xs. f x = Inr (g x) \<Longrightarrow> some_throwing f xs = Inr (\<exists>x\<in>set xs. g x)"
  by (induction xs) auto

lemma filter_throwing_total:
  "\<forall>x\<in>set xs. f x = Inr (g x) \<Longrightarrow> filter_throwing f xs = Inr (filter g xs)"
  by (induction xs) auto

lemma forEach_throwing_total:
  "\<forall>x\<in>set xs. f x = Inr (g x) \<Longrightarrow> forEach_throwing f xs = (map g xs, None)"
  by (induction xs) auto

lemma forEach_throwing_members:
  "p \<in> set (fst (forEach_throwing f xs)) \<Longrightarrow> \<exists>x\<in>set xs. f x = Inr p"
  by (induction xs arbitrary: p) (auto split: sum.splits prod.splits)

lemma set_insert_by: "set (insert_by cmp x ys) = insert x (set ys)"
  by (induction ys) auto

lemma set_js_sort: "set (js_sort cmp xs) = set xs"
  by (induction xs) (simp_all add: js_sort_def set_insert_by)

lemma authorsThatWroteTheArticle_total:
  assumes "article_author article = Some s"
    and "\<forall>u\<in>set authors. author_name u \<noteq> None"
  shows "authorsThatWroteTheArticle h authors article =
     Inr (filter (\<lambda>u. toLowerCase h (the (author_name u))
                      \<in> set (map (\<lambda>a. toLowerCase h (trim a)) (split_on comma s))) authors)"
proof -
  let ?allAuthors = "map (\<lambda>a. toLowerCase h (trim a)) (split_on comma s)"
  have "\<forall>u\<in>set authors.
      some_throwing (\<lambda>a. case author_name u of None \<Rightarrow> Inl TypeError
                         | Some n \<Rightarrow> Inr (a = toLowerCase h n)) ?allAuthors
      = Inr (toLowerCase h (the (author_name u)) \<in> set ?allAuthors)"
  proof
    fix u assume "u \<in> set authors"
    with assms(2) obtain n where n: "author_name u = Some n" by auto
    have "some_throwing (\<lambda>a. case author_name u of None \<Rightarrow> Inl TypeError
                         | Some n \<Rightarrow> Inr (a = toLowerCase h n)) ?allAuthors
      = Inr (\<exists>a\<in>set ?allAuthors. a = toLowerCase h n)"
      by (rule some_throwing_total) (simp add: n)
    then show "some_throwing (\<lambda>a. case author_name u of None \<Rightarrow> Inl TypeError
                         | Some n \<Rightarrow> Inr (a = toLowerCase h n)) ?allAuthors
      = Inr (toLowerCase h (the (author_name u)) \<in> set ?allAuthors)"
      by (simp add: n)
  qed
  then have "filter_throwing
     (\<lambda>author. case article_author article of None \<Rightarrow> Inl TypeError
        | Some s \<Rightarrow>
            (let allAuthors = map (\<lambda>a. toLowerCase h (trim a)) (split_on comma s)
             in some_throwing (\<lambda>a. case author_name author of None \<Rightarrow> Inl TypeError
                                   | Some n \<Rightarrow> Inr (a = toLowerCase h n)) allAuthors))
     authors
    = Inr (filter (\<lambda>u. toLowerCase h (the (author_name u)) \<in> set ?allAuthors) authors)"
    by (intro filter_throwing_total) (simp add: assms(1))
  then show ?thesis
    by (simp add: authorsThatWroteTheArticle_def)
qed


lemma article_page_total:
  assumes "article_author article = Some s"
    and "\<forall>u\<in>set authors. author_name u \<noteq> None"
  shows "\<exists>ctx. article_page h basePath mailchimp authors articles (article, index)
            = Inr (CreatePage (article_slug article) Article_template ctx)
          \<and> ctx_article ctx = article \<and> ctx_next ctx = next_articles articles index"
  by (simp add: article_page_def authorsThatWroteTheArticle_total [OF assms])

lemma article_pages_total:
  assumes "\<forall>a\<in>set articles. article_author a \<noteq> None"
    and "\<forall>u\<in>set authors. author_name u \<noteq> None"
    and "fst ` set xs \<subseteq> set articles"
  shows "forEach_throwing (article_page h basePath mailchimp authors articles) xs
         = (map (\<lambda>x. projr (article_page h basePath mailchimp authors articles x)) xs, None)"
proof (rule forEach_throwing_total, rule ballI)
  fix x assume "x \<in> set xs"
  with assms(3) have "fst x \<in> set articles" by auto
  with assms(1) obtain s where "article_author (fst x) = Some s" by auto
  from article_page_total [OF this assms(2), of h basePath mailchimp articles "snd x"]
  show "article_page h basePath mailchimp authors articles x
      = Inr (projr (article_page h basePath mailchimp authors articles x))"
    by auto
qed

lemma indexed_member:
  "a \<in> set xs \<Longrightarrow> \<exists>i. (a, i) \<in> set (zip xs [0..<length xs])"
  by (auto simp: in_set_conv_nth set_zip)

lemma zip_fst_subset: "fst ` set (zip xs ys) \<subseteq> set xs"
  by (auto dest: set_zip_leftD)

lemma createPages_calls:
  assumes "aggregated_articles h themeOptions \<noteq> []"
    and "aggregated_authors h themeOptions \<noteq> []"
    and "\<forall>a\<in>set (aggregated_articles h themeOptions). article_author a \<noteq> None"
    and "\<forall>u\<in>set (aggregated_authors h themeOptions). author_name u \<noteq> None"
  shows "\<exists>ctx authorPages.
     calls (createPages h themeOptions) =
       CreatePaginatedPages
         (filter (\<lambda>a. \<not> article_secret a) (aggregated_articles h themeOptions))
         (with_default (js ''/'') (opt_basePath themeOptions))
         (with_default 6 (opt_pageLength themeOptions))
         Articles_template ctx
       # map (\<lambda>x. projr (article_page h (with_default (js ''/'') (opt_basePath themeOptions))
                          (with_default [] (opt_mailchimp themeOptions))
                          (aggregated_authors h themeOptions)
                          (aggregated_articles h themeOptions) x))
           (zip (aggregated_articles h themeOptions)
                [0..<length (aggregated_articles h themeOptions)])
       @ authorPages"
  using assms(1,2)
  by (simp add: createPages_def Let_def
      article_pages_total [OF assms(3,4) zip_fst_subset] split: prod.splits)


lemma createPages_call_origin:
  assumes "p \<in> set (calls (createPages h themeOptions))"
  shows "(\<exists>ctx. p = CreatePaginatedPages
                    (filter (\<lambda>a. \<not> article_secret a) (aggregated_articles h themeOptions))
                    (with_default (js ''/'') (opt_basePath themeOptions))
                    (with_default 6 (opt_pageLength themeOptions)) Articles_template ctx)
       \<or> (\<exists>basePath mailchimp x.
             article_page h basePath mailchimp (aggregated_authors h themeOptions)
               (aggregated_articles h themeOptions) x = Inr p)
       \<or> (\<exists>authorsPath pageLength author.
             author_page h authorsPath pageLength (aggregated_articles h themeOptions) author
               = Inr p)"
proof -
  let ?posts = "forEach_throwing
      (article_page h (with_default (js ''/'') (opt_basePath themeOptions))
         (with_default [] (opt_mailchimp themeOptions))
         (aggregated_authors h themeOptions) (aggregated_articles h themeOptions))
      (zip (aggregated_articles h themeOptions)
           [0..<length (aggregated_articles h themeOptions)])"
  let ?authorPages = "forEach_throwing
      (author_page h (with_default (js ''/authors'') (opt_authorsPath themeOptions))
         (with_default 6 (opt_pageLength themeOptions)) (aggregated_articles h themeOptions))
      (aggregated_authors h themeOptions)"
  from assms have
    "(\<exists>ctx. p = CreatePaginatedPages
                    (filter (\<lambda>a. \<not> article_secret a) (aggregated_articles h themeOptions))
                    (with_default (js ''/'') (opt_basePath themeOptions))
                    (with_default 6 (opt_pageLength themeOptions)) Articles_template ctx)
     \<or> p \<in> set (fst ?posts) \<or> p \<in> set (fst ?authorPages)"
    by (auto simp: createPages_def Let_def split: if_splits prod.splits option.splits)
  then show ?thesis
    by (blast dest: forEach_throwing_members)
qed

lemma article_page_no_listing:
  "article_page h basePath mailchimp authors articles x \<noteq> Inr (CreatePaginatedPages edges p l t c)"
  by (auto simp: article_page_def split: prod.splits sum.splits)

lemma author_page_edges:
  "author_page h authorsPath pageLength articles author = Inr (CreatePaginatedPages edges p l t c)
     \<Longrightarrow> a \<in> set edges \<Longrightarrow> \<not> article_secret a"
  by (auto simp: author_page_def articlesTheAuthorHasWritten_def
      split: sum.splits option.splits)

lemma paginated_edges_public:
  assumes "CreatePaginatedPages edges p l t c \<in> set (calls (createPages h themeOptions))"
    and "a \<in> set edges"
  shows "\<not> article_secret a"
  using createPages_call_origin [OF assms(1)] assms(2)
  by (auto simp: article_page_no_listing dest: author_page_edges)

text \<open>
  Claim C6. The edges passed to the paginated listing are the articles not flagged
  secret, in their sorted order, and no paginated call of the build has a secret article
  among its edges; yet every article, secret or not, gets its own page at its slug. The
  article pages are made when the build gets through the loop over the articles: there
  are an article and an author, every article has an author string and every author a
  name.
\<close>

theorem secret_articles_unlisted_but_reachable:
  assumes "aggregated_articles h themeOptions \<noteq> []"
    and "aggregated_authors h themeOptions \<noteq> []"
    and "\<forall>a\<in>set (aggregated_articles h themeOptions). article_author a \<noteq> None"
    and "\<forall>u\<in>set (aggregated_authors h themeOptions). author_name u \<noteq> None"
  shows "(\<exists>ctx. hd (calls (createPages h themeOptions)) =
            CreatePaginatedPages
              (filter (\<lambda>a. \<not> article_secret a) (aggregated_articles h themeOptions))
              (with_default (js ''/'') (opt_basePath themeOptions))
              (with_default 6 (opt_pageLength themeOptions))
              Articles_template ctx)
       \<and> (\<forall>edges p l t c. \<forall>a\<in>set edges.
            CreatePaginatedPages edges p l t c \<in> set (calls (createPages h themeOptions))
            \<longrightarrow> \<not> article_secret a)
       \<and> (\<forall>a\<in>set (aggregated_articles h themeOptions).
            \<exists>ctx. CreatePage (article_slug a) Article_template ctx
                    \<in> set (calls (createPages h themeOptions))
                  \<and> ctx_article ctx = a)"
proof (intro conjI)
  from createPages_calls [OF assms] obtain ctx authorPages where calls:
    "calls (createPages h themeOptions) =
       CreatePaginatedPages
         (filter (\<lambda>a. \<not> article_secret a) (aggregated_articles h themeOptions))
         (with_default (js ''/'') (opt_basePath themeOptions))
         (with_default 6 (opt_pageLength themeOptions))
         Articles_template ctx
       # map (\<lambda>x. projr (article_page h (with_default (js ''/'') (opt_basePath themeOptions))
                          (with_default [] (opt_mailchimp themeOptions))
                          (aggregated_authors h themeOptions)
                          (aggregated_articles h themeOptions) x))
           (zip (aggregated_articles h themeOptions)
                [0..<length (aggregated_articles h themeOptions)])
       @ authorPages"
    by blast
  then show "\<exists>ctx. hd (calls (createPages h themeOptions)) =
            CreatePaginatedPages
              (filter (\<lambda>a. \<not> article_secret a) (aggregated_articles h themeOptions))
              (with_default (js ''/'') (opt_basePath themeOptions))
              (with_default 6 (opt_pageLength themeOptions))
              Articles_template ctx"
    by simp
  show "\<forall>a\<in>set (aggregated_articles h themeOptions).
            \<exists>ctx. CreatePage (article_slug a) Article_template ctx
                    \<in> set (calls (createPages h themeOptions))
                  \<and> ctx_article ctx = a"
  proof
    fix a assume a: "a \<in> set (aggregated_articles h themeOptions)"
    with assms(3) obtain s where s: "article_author a = Some s" by auto
    from indexed_member [OF a] obtain i where
      i: "(a, i) \<in> set (zip (aggregated_articles h themeOptions)
                           [0..<length (aggregated_articles h themeOptions)])" ..
    from article_page_total [OF s assms(4)] obtain actx where
      "article_page h (with_default (js ''/'') (opt_basePath themeOptions))
         (with_default [] (opt_mailchimp themeOptions))
         (aggregated_authors h themeOptions) (aggregated_articles h themeOptions) (a, i)
       = Inr (CreatePage (article_slug a) Article_template actx)"
      and "ctx_article actx = a"
      by blast
    with i calls show "\<exists>ctx. CreatePage (article_slug a) Article_template ctx
                    \<in> set (calls (createPages h themeOptions))
                  \<and> ctx_article ctx = a"
      by (force simp: image_iff)
  qed
  show "\<forall>edges p l t c. \<forall>a\<in>set edges.
            CreatePaginatedPages edges p l t c \<in> set (calls (createPages h themeOptions))
            \<longrightarrow> \<not> article_secret a"
    by (blast dest: paginated_edges_public)
qed

theorem secret_articles_unlisted_but_reachable_witness:
  "aggregated_articles
     (local_host [mk_author ''Alice'' ''alice'']
        [mk_article ''public'' ''Alice'' 1 False, mk_article ''hidden'' ''Alice'' 2 True])
     default_options
     = [mk_article ''hidden'' ''Alice'' 2 True, mk_article ''public'' ''Alice'' 1 False]
   \<and> aggregated_authors
     (local_host [mk_author ''Alice'' ''alice'']
        [mk_article ''public'' ''Alice'' 1 False, mk_article ''hidden'' ''Alice'' 2 True])
     default_options
     = [mk_author ''Alice'' ''alice'']
   \<and> (\<exists>ctx. hd (calls (createPages
          (local_host [mk_author ''Alice'' ''alice'']
             [mk_article ''public'' ''Alice'' 1 False, mk_article ''hidden'' ''Alice'' 2 True])
          default_options))
        = CreatePaginatedPages [mk_article ''public'' ''Alice'' 1 False] (js ''/'') 6
            Articles_template ctx)
   \<and> (\<exists>ctx. CreatePage (js ''/hidden'') Article_template ctx
          \<in> set (calls (createPages
               (local_host [mk_author ''Alice'' ''alice'']
                  [mk_article ''public'' ''Alice'' 1 False, mk_article ''hidden'' ''Alice'' 2 True])
               default_options))
        \<and> ctx_article ctx = mk_article ''hidden'' ''Alice'' 2 True)"
proof -
  let ?public = "mk_article ''public'' ''Alice'' 1 False"
  let ?hidden = "mk_article ''hidden'' ''Alice'' 2 True"
  let ?h = "local_host [mk_author ''Alice'' ''alice''] [?public, ?hidden]"
  have articles: "aggregated_articles ?h default_options = [?hidden, ?public]"
    by code_simp
  have authors: "aggregated_authors ?h default_options = [mk_author ''Alice'' ''alice'']"
    by code_simp
  have a1: "aggregated_articles ?h default_options \<noteq> []"
    by (simp add: articles)
  have a2: "aggregated_authors ?h default_options \<noteq> []"
    by (simp add: authors)
  have a3: "\<forall>a\<in>set (aggregated_articles ?h default_options). article_author a \<noteq> None"
    unfolding articles by (simp add: mk_article_def)
  have a4: "\<forall>u\<in>set (aggregated_authors ?h default_options). author_name u \<noteq> None"
    unfolding authors by (simp add: mk_author_def)
  have slug: "article_slug ?hidden = js ''/hidden''"
    by (simp add: mk_article_def)
  have defaults: "with_default (js ''/'') (opt_basePath default_options) = js ''/''"
    "with_default 6 (opt_pageLength default_options) = 6"
    by (simp_all add: with_default_def default_options_def)
  have public: "filter (\<lambda>a. \<not> article_secret a) [?hidden, ?public] = [?public]"
    by (simp add: mk_article_def)
  from secret_articles_unlisted_but_reachable [OF a1 a2 a3 a4]
  show ?thesis
    unfolding articles authors defaults public
    using slug by (simp (no_asm_use)) metis
qed

subsection \<open>Resolving the authors of an article\<close>

text \<open>
  The \<^verbatim>\<open>catch\<close> of lines 176 to 184 is reached when the article has no author string
  (or an author has no name): the error then carries the title and the raw author field.
\<close>

lemma missing_author_field_is_reported:
  "article_author article = None \<Longrightarrow> authors \<noteq> [] \<Longrightarrow>
     authorsThatWroteTheArticle h authors article
       = Inl (AuthorNotFound (article_title article) None TypeError)"
  by (cases authors) (simp_all add: authorsThatWroteTheArticle_def)

text \<open>
  Claim C1 says that an article whose author string matches no known author makes the
  build throw an error naming the title and the author string. The build below has the
  author \<^verbatim>\<open>Alice\<close> and one article by \<^verbatim>\<open>Bob\<close>: the filter finds no author and returns the
  empty list, nothing is thrown, and the page of the article is created with no author.
\<close>

theorem unmatched_author_is_not_reported:
  "authorsThatWroteTheArticle
     (local_host [mk_author ''Alice'' ''alice''] [mk_article ''post'' ''Bob'' 1 False])
     [mk_author ''Alice'' ''alice''] (mk_article ''post'' ''Bob'' 1 False) = Inr []
   \<and> thrown (createPages
        (local_host [mk_author ''Alice'' ''alice''] [mk_article ''post'' ''Bob'' 1 False])
        default_options) = None
   \<and> calls (createPages
        (local_host [mk_author ''Alice'' ''alice''] [mk_article ''post'' ''Bob'' 1 False])
        default_options) =
       [CreatePaginatedPages [mk_article ''post'' ''Bob'' 1 False] (js ''/'') 6 Articles_template
          (Articles_context [mk_author ''Alice'' ''alice''] (js ''/'') 6 6),
        CreatePage (js ''/post'') Article_template
          \<lparr>ctx_article = mk_article ''post'' ''Bob'' 1 False, ctx_authors = [],
           ctx_basePath = js ''/'', ctx_slug = js ''/post'', ctx_id = js ''post'',
           ctx_title = js ''post'', ctx_mailchimp = [], ctx_next = []\<rparr>,
        CreatePaginatedPages [] (js ''alice'') 6 Author_template
          (Author_context (mk_author ''Alice'' ''alice'') (js ''/authors/alice'') 6 6)]"
  by code_simp

subsection \<open>The articles of an author page\<close>

lemma articlesTheAuthorHasWritten_total:
  assumes "author_name author = Some n"
    and "\<forall>a\<in>set articles. article_author a \<noteq> None"
  shows "articlesTheAuthorHasWritten h articles author =
     Inr (filter (\<lambda>a. \<not> article_secret a
                      \<and> js_includes (toLowerCase h (the (article_author a))) (toLowerCase h n))
            articles)"
proof -
  have "filter_throwing
          (\<lambda>article. case article_author article of None \<Rightarrow> Inl TypeError
             | Some s \<Rightarrow> (case author_name author of None \<Rightarrow> Inl TypeError
                 | Some n \<Rightarrow> Inr (js_includes (toLowerCase h s) (toLowerCase h n))))
          articles
        = Inr (filter (\<lambda>a. js_includes (toLowerCase h (the (article_author a)))
                            (toLowerCase h n)) articles)"
    using assms by (intro filter_throwing_total) auto
  then show ?thesis
    by (simp add: articlesTheAuthorHasWritten_def conj_commute)
qed

text \<open>
  Claim C10 says that an author page lists every article whose author string contains
  the author's name, case ignored. A secret article does not get listed: here the name
  \<^verbatim>\<open>Al\<close> occurs in the author string \<^verbatim>\<open>Alice\<close> of the one article, which is secret, and
  the page of \<^verbatim>\<open>Al\<close> has no edge.
\<close>

theorem secret_article_not_attributed:
  "js_includes (ascii_toLowerCase (js ''Alice'')) (ascii_toLowerCase (js ''Al''))
   \<and> articlesTheAuthorHasWritten (local_host [] []) [mk_article ''post'' ''Alice'' 1 True]
        (mk_author ''Al'' ''al'') = Inr []
   \<and> calls (createPages
        (local_host [mk_author ''Al'' ''al''] [mk_article ''post'' ''Alice'' 1 True])
        default_options) =
       [CreatePaginatedPages [] (js ''/'') 6 Articles_template
          (Articles_context [mk_author ''Al'' ''al''] (js ''/'') 6 6),
        CreatePage (js ''/post'') Article_template
          \<lparr>ctx_article = mk_article ''post'' ''Alice'' 1 True, ctx_authors = [],
           ctx_basePath = js ''/'', ctx_slug = js ''/post'', ctx_id = js ''post'',
           ctx_title = js ''post'', ctx_mailchimp = [], ctx_next = []\<rparr>,
        CreatePaginatedPages [] (js ''al'') 6 Author_template
          (Author_context (mk_author ''Al'' ''al'') (js ''/authors/al'') 6 6)]"
  by code_simp

text \<open>
  Claim C10, amended. For an author with a name and a slug, and articles that all have
  an author string, the edges of the author page are the articles that are not secret
  and whose lowercased author string contains the lowercased name of the author,
  whether or not the name is one of the comma-separated names of the article.
\<close>

theorem author_page_lists_public_substring_matches:
  assumes "author_name author = Some n"
    and "author_slug author = Some slug"
    and "\<forall>a\<in>set articles. article_author a \<noteq> None"
  shows "\<exists>ctx. author_page h authorsPath pageLength articles author =
     Inr (CreatePaginatedPages
            (filter (\<lambda>a. \<not> article_secret a
                        \<and> js_includes (toLowerCase h (the (article_author a))) (toLowerCase h n))
               articles)
            slug pageLength Author_template ctx)"
  by (simp add: author_page_def articlesTheAuthorHasWritten_total [OF assms(1,3)] assms(2))

theorem author_page_lists_public_substring_matches_witness:
  "author_name (mk_author ''Al'' ''al'') = Some (js ''Al'')
   \<and> author_slug (mk_author ''Al'' ''al'') = Some (js ''al'')
   \<and> article_author (mk_article ''post'' ''Alice'' 1 False) = Some (js ''Alice'')
   \<and> (\<exists>ctx. author_page (local_host [] []) (js ''/authors'') 6
               [mk_article ''post'' ''Alice'' 1 False] (mk_author ''Al'' ''al'')
             = Inr (CreatePaginatedPages [mk_article ''post'' ''Alice'' 1 False] (js ''al'') 6
                      Author_template ctx))
   \<and> authorsThatWroteTheArticle (local_host [] []) [mk_author ''Al'' ''al'']
        (mk_article ''post'' ''Alice'' 1 False) = Inr []"
proof -
  let ?al = "mk_author ''Al'' ''al''"
  let ?post = "mk_article ''post'' ''Alice'' 1 False"
  let ?h = "local_host [] []"
  have name: "author_name ?al = Some (js ''Al'')"
    and slug: "author_slug ?al = Some (js ''al'')"
    by (simp_all add: mk_author_def)
  have field: "article_author ?post = Some (js ''Alice'')"
    by (simp add: mk_article_def)
  then have fields: "\<forall>a\<in>set [?post]. article_author a \<noteq> None"
    by simp
  have listed: "filter (\<lambda>a. \<not> article_secret a
         \<and> js_includes (toLowerCase ?h (the (article_author a))) (toLowerCase ?h (js ''Al'')))
       [?post] = [?post]"
    by code_simp
  have unresolved: "authorsThatWroteTheArticle ?h [?al] ?post = Inr []"
    by code_simp
  from author_page_lists_public_substring_matches [OF name slug fields, of ?h "js ''/authors''" 6]
  show ?thesis
    unfolding listed using name slug field unresolved by simp
qed

subsection \<open>A source that fails\<close>

lemma aggregated_articles_other:
  "src_articles (fst (dataSource h themeOptions Local)) = [] \<Longrightarrow>
     aggregated_articles h themeOptions
       = js_sort byDate (src_articles (fst (dataSource h themeOptions Contentful)))"
  "src_articles (fst (dataSource h themeOptions Contentful)) = [] \<Longrightarrow>
     aggregated_articles h themeOptions
       = js_sort byDate (src_articles (fst (dataSource h themeOptions Local)))"
  by (simp_all add: aggregated_articles_def netlify_def empty_source_def)

lemma console_has_source_logs:
  "\<exists>before after. console (createPages h themeOptions)
     = before @ snd (dataSource h themeOptions Local)
         @ snd (dataSource h themeOptions Contentful) @ after"
proof -
  have "\<exists>after. console (createPages h themeOptions)
     = ([Log (js ''Config basePath'') (with_default (js ''/'') (opt_basePath themeOptions))]
         @ (if with_default True (opt_authorsPage themeOptions)
            then [Log (js ''Config authorsPath'')
                    (with_default (js ''/authors'') (opt_authorsPath themeOptions))]
            else []))
       @ snd (dataSource h themeOptions Local)
       @ snd (dataSource h themeOptions Contentful) @ after"
    by (simp add: createPages_def Let_def split: prod.splits option.splits)
  then show ?thesis by blast
qed

text \<open>
  Claim C8 says that a source whose query or normalisation raises contributes no author
  and no article. The authors are assigned before the articles are normalised: when the
  normaliser of the articles throws, the source keeps its authors.
\<close>

theorem failing_source_keeps_its_authors:
  "edges_map (normalize_articles (misshapen_articles_host [mk_author ''Alice'' ''alice'']) Local)
     (Some [Inl \<lparr>author_name = None, author_slug = None\<rparr>]) = Inl TypeError
   \<and> fst (query_source (misshapen_articles_host [mk_author ''Alice'' ''alice'']) Local)
      = \<lparr>src_authors = [mk_author ''Alice'' ''alice''], src_articles = []\<rparr>
   \<and> snd (query_source (misshapen_articles_host [mk_author ''Alice'' ''alice'']) Local)
      = [Log (js ''Querying Authors & Articles source:'') (js ''Local''),
         Console_error TypeError]
   \<and> aggregated_authors (misshapen_articles_host [mk_author ''Alice'' ''alice'']) default_options
      = [mk_author ''Alice'' ''alice'']"
  by code_simp

text \<open>
  What the build throws comes from the guard on the aggregated lists or from the two
  loops, never from a source; and the calls and the error of a build depend on a source
  only through the records it contributes.
\<close>

lemma filter_throwing_error:
  "filter_throwing f xs = Inl e \<Longrightarrow> \<exists>x\<in>set xs. f x = Inl e"
  by (induction xs) (auto split: sum.splits)

lemma forEach_throwing_error:
  "snd (forEach_throwing f xs) = Some e \<Longrightarrow> \<exists>x\<in>set xs. f x = Inl e"
  by (induction xs) (auto split: sum.splits prod.splits)

lemma article_page_error:
  "article_page h basePath mailchimp authors articles x = Inl e \<Longrightarrow>
     \<exists>title field cause. e = AuthorNotFound title field cause"
  by (auto simp: article_page_def authorsThatWroteTheArticle_def split: prod.splits sum.splits)

lemma author_page_error:
  "author_page h authorsPath pageLength articles author = Inl e \<Longrightarrow> e = TypeError"
  by (auto simp: author_page_def articlesTheAuthorHasWritten_def
      split: sum.splits option.splits dest!: filter_throwing_error)

lemma createPages_thrown_origin:
  assumes "thrown (createPages h themeOptions) = Some e"
  shows "(e = MissingAuthorOrPost
          \<and> (aggregated_articles h themeOptions = [] \<or> aggregated_authors h themeOptions = []))
         \<or> e = TypeError
         \<or> (\<exists>title field cause. e = AuthorNotFound title field cause)"
proof -
  let ?posts = "forEach_throwing
      (article_page h (with_default (js ''/'') (opt_basePath themeOptions))
         (with_default [] (opt_mailchimp themeOptions))
         (aggregated_authors h themeOptions) (aggregated_articles h themeOptions))
      (zip (aggregated_articles h themeOptions)
           [0..<length (aggregated_articles h themeOptions)])"
  let ?authorPages = "forEach_throwing
      (author_page h (with_default (js ''/authors'') (opt_authorsPath themeOptions))
         (with_default 6 (opt_pageLength themeOptions)) (aggregated_articles h themeOptions))
      (aggregated_authors h themeOptions)"
  from assms have
    "(e = MissingAuthorOrPost
      \<and> (aggregated_articles h themeOptions = [] \<or> aggregated_authors h themeOptions = []))
     \<or> snd ?posts = Some e \<or> snd ?authorPages = Some e"
    by (auto simp: createPages_def Let_def split: if_splits prod.splits option.splits)
  then show ?thesis
    by (blast dest: forEach_throwing_error article_page_error author_page_error)
qed

lemma createPages_never_rethrows: "thrown (createPages h themeOptions) \<noteq> Some (Thrown m)"
  using createPages_thrown_origin [of h themeOptions "Thrown m"] by auto

lemma createPages_missing_iff:
  "(thrown (createPages h themeOptions) = Some MissingAuthorOrPost)
     = (aggregated_articles h themeOptions = [] \<or> aggregated_authors h themeOptions = [])"
proof
  assume "aggregated_articles h themeOptions = [] \<or> aggregated_authors h themeOptions = []"
  then show "thrown (createPages h themeOptions) = Some MissingAuthorOrPost"
    by (auto simp: createPages_def Let_def)
next
  assume "thrown (createPages h themeOptions) = Some MissingAuthorOrPost"
  from createPages_thrown_origin [OF this]
  show "aggregated_articles h themeOptions = [] \<or> aggregated_authors h themeOptions = []"
    by auto
qed

lemma author_page_total:
  assumes "author_name author \<noteq> None" and "author_slug author \<noteq> None"
    and "\<forall>a\<in>set articles. article_author a \<noteq> None"
  shows "author_page h authorsPath pageLength articles author
           = Inr (projr (author_page h authorsPath pageLength articles author))"
proof -
  from assms(1,2) obtain n slug where
    "author_name author = Some n" and "author_slug author = Some slug" by auto
  then show ?thesis
    by (simp add: author_page_def articlesTheAuthorHasWritten_total [OF _ assms(3)])
qed

lemma createPages_completes:
  assumes "aggregated_articles h themeOptions \<noteq> []"
    and "aggregated_authors h themeOptions \<noteq> []"
    and "\<forall>a\<in>set (aggregated_articles h themeOptions). article_author a \<noteq> None"
    and "\<forall>u\<in>set (aggregated_authors h themeOptions).
           author_name u \<noteq> None \<and> author_slug u \<noteq> None"
  shows "thrown (createPages h themeOptions) = None"
    and "length (calls (createPages h themeOptions))
           = 1 + length (aggregated_articles h themeOptions)
               + (if with_default True (opt_authorsPage themeOptions)
                  then length (aggregated_authors h themeOptions) else 0)"
proof -
  from assms(4) have names: "\<forall>u\<in>set (aggregated_authors h themeOptions). author_name u \<noteq> None"
    by blast
  have authorPages: "forEach_throwing
      (author_page h authorsPath pageLength (aggregated_articles h themeOptions))
      (aggregated_authors h themeOptions)
    = (map (\<lambda>u. projr (author_page h authorsPath pageLength
                          (aggregated_articles h themeOptions) u))
         (aggregated_authors h themeOptions), None)" for authorsPath pageLength
    using assms(3,4) by (intro forEach_throwing_total ballI author_page_total) auto
  show "thrown (createPages h themeOptions) = None"
    using assms(1,2)
    by (simp add: createPages_def Let_def authorPages
        article_pages_total [OF assms(3) names zip_fst_subset])
  show "length (calls (createPages h themeOptions))
           = 1 + length (aggregated_articles h themeOptions)
               + (if with_default True (opt_authorsPage themeOptions)
                  then length (aggregated_authors h themeOptions) else 0)"
    using assms(1,2)
    by (simp add: createPages_def Let_def authorPages
        article_pages_total [OF assms(3) names zip_fst_subset])
qed


lemma createPages_depends_on_data:
  assumes "toLowerCase h' = toLowerCase h" and "normalizeNFD h' = normalizeNFD h"
    and "fst (dataSource h' themeOptions Local) = fst (dataSource h themeOptions Local)"
    and "fst (dataSource h' themeOptions Contentful) = fst (dataSource h themeOptions Contentful)"
  shows "calls (createPages h' themeOptions) = calls (createPages h themeOptions)"
    and "thrown (createPages h' themeOptions) = thrown (createPages h themeOptions)"
proof -
  have articles: "aggregated_articles h' themeOptions = aggregated_articles h themeOptions"
    by (simp add: aggregated_articles_def assms(3,4))
  have authors: "aggregated_authors h' themeOptions = aggregated_authors h themeOptions"
    by (simp add: aggregated_authors_def assms(3,4))
  have resolve: "authorsThatWroteTheArticle h' authors article
      = authorsThatWroteTheArticle h authors article" for authors article
    unfolding authorsThatWroteTheArticle_def assms(1) by (rule refl)
  have written: "articlesTheAuthorHasWritten h' articles author
      = articlesTheAuthorHasWritten h articles author" for articles author
    unfolding articlesTheAuthorHasWritten_def assms(1) by (rule refl)
  have article_page: "article_page h' = article_page h"
    unfolding article_page_def resolve by (rule refl)
  have author_page: "author_page h' = author_page h"
    unfolding author_page_def written assms(1,2) by (rule refl)
  show "calls (createPages h' themeOptions) = calls (createPages h themeOptions)"
    by (simp add: createPages_def Let_def articles authors article_page author_page
        split: prod.splits option.splits)
  show "thrown (createPages h' themeOptions) = thrown (createPages h themeOptions)"
    by (simp add: createPages_def Let_def articles authors article_page author_page
        split: prod.splits option.splits)
qed

text \<open>
  Claim C8, amended. An error raised by a query of a source, by the shape of its result
  or by a normaliser is caught and logged. The source then contributes no article; it
  contributes no author either, unless the error comes from the articles (their edges
  or their normaliser) after the authors were normalised, in which case it contributes
  those authors. The build goes on with the other sources instead of aborting: the
  console holds the entries of both sources; when a source has no article the
  aggregated articles are those of the other source; the build never throws what a
  source threw, and it throws the configuration error only when the aggregated articles
  or authors are empty; it completes, with the listing, one page for each article and
  one for each author, whenever the aggregated records have an article and an author
  and their author strings, names and slugs; and a source that fails leaves the same
  calls and the same outcome as a source that answers with the records the failing one
  contributes.
\<close>

theorem source_failure_is_caught:
  "(graphql h src Authors = Inl e \<longrightarrow>
      query_source h src
        = (empty_source,
           [Log (js ''Querying Authors & Articles source:'') (source_label src),
            Console_error e]))
   \<and> (graphql h src Authors = Inr authorsResult \<and> graphql h src Articles = Inl e \<longrightarrow>
      query_source h src
        = (empty_source,
           [Log (js ''Querying Authors & Articles source:'') (source_label src),
            Console_error e]))
   \<and> (graphql h src Authors = Inr authorsResult \<and> graphql h src Articles = Inr articlesResult
        \<and> edges_map (normalize_authors h src) authorsResult = Inl e \<longrightarrow>
      query_source h src
        = (empty_source,
           [Log (js ''Querying Authors & Articles source:'') (source_label src),
            Console_error e]))
   \<and> (graphql h src Authors = Inr authorsResult \<and> graphql h src Articles = Inr articlesResult
        \<and> edges_map (normalize_authors h src) authorsResult = Inr normalized
        \<and> edges_map (normalize_articles h src) articlesResult = Inl e \<longrightarrow>
      query_source h src
        = (\<lparr>src_authors = normalized, src_articles = []\<rparr>,
           [Log (js ''Querying Authors & Articles source:'') (source_label src),
            Console_error e]))
   \<and> (src_articles (fst (dataSource h themeOptions Local)) = [] \<longrightarrow>
        aggregated_articles h themeOptions
          = js_sort byDate (src_articles (fst (dataSource h themeOptions Contentful))))
   \<and> (src_articles (fst (dataSource h themeOptions Contentful)) = [] \<longrightarrow>
        aggregated_articles h themeOptions
          = js_sort byDate (src_articles (fst (dataSource h themeOptions Local))))
   \<and> (\<exists>before after. console (createPages h themeOptions)
          = before @ snd (dataSource h themeOptions Local)
              @ snd (dataSource h themeOptions Contentful) @ after)
   \<and> thrown (createPages h themeOptions) \<noteq> Some (Thrown m)
   \<and> (thrown (createPages h themeOptions) = Some MissingAuthorOrPost)
       = (aggregated_articles h themeOptions = [] \<or> aggregated_authors h themeOptions = [])
   \<and> (aggregated_articles h themeOptions \<noteq> [] \<and> aggregated_authors h themeOptions \<noteq> []
        \<and> (\<forall>a\<in>set (aggregated_articles h themeOptions). article_author a \<noteq> None)
        \<and> (\<forall>u\<in>set (aggregated_authors h themeOptions).
              author_name u \<noteq> None \<and> author_slug u \<noteq> None) \<longrightarrow>
        thrown (createPages h themeOptions) = None
        \<and> length (calls (createPages h themeOptions))
            = 1 + length (aggregated_articles h themeOptions)
                + (if with_default True (opt_authorsPage themeOptions)
                   then length (aggregated_authors h themeOptions) else 0))
   \<and> (toLowerCase h' = toLowerCase h \<and> normalizeNFD h' = normalizeNFD h
        \<and> fst (dataSource h' themeOptions Local) = fst (dataSource h themeOptions Local)
        \<and> fst (dataSource h' themeOptions Contentful)
            = fst (dataSource h themeOptions Contentful) \<longrightarrow>
        calls (createPages h' themeOptions) = calls (createPages h themeOptions)
        \<and> thrown (createPages h' themeOptions) = thrown (createPages h themeOptions))"
proof (intro conjI impI)
  show "\<exists>before after. console (createPages h themeOptions)
          = before @ snd (dataSource h themeOptions Local)
              @ snd (dataSource h themeOptions Contentful) @ after"
    by (rule console_has_source_logs)
  show "thrown (createPages h themeOptions) \<noteq> Some (Thrown m)"
    by (rule createPages_never_rethrows)
  show "(thrown (createPages h themeOptions) = Some MissingAuthorOrPost)
       = (aggregated_articles h themeOptions = [] \<or> aggregated_authors h themeOptions = [])"
    by (rule createPages_missing_iff)
next
  assume ok: "aggregated_articles h themeOptions \<noteq> [] \<and> aggregated_authors h themeOptions \<noteq> []
        \<and> (\<forall>a\<in>set (aggregated_articles h themeOptions). article_author a \<noteq> None)
        \<and> (\<forall>u\<in>set (aggregated_authors h themeOptions).
              author_name u \<noteq> None \<and> author_slug u \<noteq> None)"
  then show "thrown (createPages h themeOptions) = None"
    by (intro createPages_completes) simp_all
  from ok show "length (calls (createPages h themeOptions))
            = 1 + length (aggregated_articles h themeOptions)
                + (if with_default True (opt_authorsPage themeOptions)
                   then length (aggregated_authors h themeOptions) else 0)"
    by (intro createPages_completes) simp_all
next
  assume same: "toLowerCase h' = toLowerCase h \<and> normalizeNFD h' = normalizeNFD h
        \<and> fst (dataSource h' themeOptions Local) = fst (dataSource h themeOptions Local)
        \<and> fst (dataSource h' themeOptions Contentful)
            = fst (dataSource h themeOptions Contentful)"
  then show "calls (createPages h' themeOptions) = calls (createPages h themeOptions)"
    by (intro createPages_depends_on_data) simp_all
  from same show "thrown (createPages h' themeOptions) = thrown (createPages h themeOptions)"
    by (intro createPages_depends_on_data) simp_all
qed (simp_all add: query_source_def aggregated_articles_other)

theorem source_failure_is_caught_witness:
  "graphql (offline_local_host [mk_author ''Alice'' ''alice''] [mk_article ''post'' ''Alice'' 1 False])
     Local Authors = Inl (Thrown (js ''offline''))
   \<and> query_source
        (offline_local_host [mk_author ''Alice'' ''alice''] [mk_article ''post'' ''Alice'' 1 False])
        Local
      = (empty_source,
         [Log (js ''Querying Authors & Articles source:'') (js ''Local''),
          Console_error (Thrown (js ''offline''))])
   \<and> aggregated_articles
        (offline_local_host [mk_author ''Alice'' ''alice''] [mk_article ''post'' ''Alice'' 1 False])
        both_sources
      = [mk_article ''post'' ''Alice'' 1 False]
   \<and> aggregated_authors
        (offline_local_host [mk_author ''Alice'' ''alice''] [mk_article ''post'' ''Alice'' 1 False])
        both_sources
      = [mk_author ''Alice'' ''alice'']
   \<and> thrown (createPages
        (offline_local_host [mk_author ''Alice'' ''alice''] [mk_article ''post'' ''Alice'' 1 False])
        both_sources) = None
   \<and> length (calls (createPages
        (offline_local_host [mk_author ''Alice'' ''alice''] [mk_article ''post'' ''Alice'' 1 False])
        both_sources)) = 3
   \<and> calls (createPages
        (empty_local_host [mk_author ''Alice'' ''alice''] [mk_article ''post'' ''Alice'' 1 False])
        both_sources)
      = calls (createPages
        (offline_local_host [mk_author ''Alice'' ''alice''] [mk_article ''post'' ''Alice'' 1 False])
        both_sources)
   \<and> edges_map (normalize_articles (misshapen_articles_host [mk_author ''Alice'' ''alice'']) Local)
        (Some [Inl \<lparr>author_name = None, author_slug = None\<rparr>]) = Inl TypeError
   \<and> query_source (misshapen_articles_host [mk_author ''Alice'' ''alice'']) Local
      = (\<lparr>src_authors = [mk_author ''Alice'' ''alice''], src_articles = []\<rparr>,
         [Log (js ''Querying Authors & Articles source:'') (js ''Local''),
          Console_error TypeError])"
proof -
  let ?alice = "mk_author ''Alice'' ''alice''"
  let ?post = "mk_article ''post'' ''Alice'' 1 False"
  let ?h = "offline_local_host [?alice] [?post]"
  let ?k = "empty_local_host [?alice] [?post]"
  let ?g = "misshapen_articles_host [?alice]"
  let ?bad = "[Inl \<lparr>author_name = None, author_slug = None\<rparr>] :: (author + article) list"
  have rejected: "graphql ?h Local Authors = Inl (Thrown (js ''offline''))"
    by (simp add: offline_local_host_def test_host_def)
  have none: "src_articles (fst (dataSource ?h both_sources Local)) = []"
    by code_simp
  have other: "js_sort byDate (src_articles (fst (dataSource ?h both_sources Contentful))) = [?post]"
    by code_simp
  have authors: "aggregated_authors ?h both_sources = [?alice]"
    by code_simp
  have label: "source_label Local = js ''Local''"
    by (simp add: source_label_def)
  have same: "toLowerCase ?k = toLowerCase ?h" "normalizeNFD ?k = normalizeNFD ?h"
    by (simp_all add: empty_local_host_def offline_local_host_def test_host_def)
  have same_local: "fst (dataSource ?k both_sources Local) = fst (dataSource ?h both_sources Local)"
    by code_simp
  have same_contentful:
    "fst (dataSource ?k both_sources Contentful) = fst (dataSource ?h both_sources Contentful)"
    by code_simp
  have g1: "graphql ?g Local Authors = Inr (Some [Inl ?alice])"
    and g2: "graphql ?g Local Articles = Inr (Some ?bad)"
    by (simp_all add: misshapen_articles_host_def test_host_def edges_of_def)
  have g3: "edges_map (normalize_authors ?g Local) (Some [Inl ?alice]) = Inr [?alice]"
    and g4: "edges_map (normalize_articles ?g Local) (Some ?bad) = Inl TypeError"
    by (simp_all add: misshapen_articles_host_def test_host_def edges_map_def)
  note at_h = source_failure_is_caught
      [where h = ?h and src = Local and e = "Thrown (js ''offline'')"
         and themeOptions = both_sources and h' = ?k]
  note at_g = source_failure_is_caught
      [where h = ?g and src = Local and e = TypeError and authorsResult = "Some [Inl ?alice]"
         and articlesResult = "Some ?bad" and normalized = "[?alice]"]
  note rejected_query = at_h [THEN conjunct1, rule_format]
  note local_empty = at_h [THEN conjunct2, THEN conjunct2, THEN conjunct2, THEN conjunct2, THEN conjunct1, rule_format]
  note completes = at_h [THEN conjunct2, THEN conjunct2, THEN conjunct2, THEN conjunct2, THEN conjunct2, THEN conjunct2, THEN conjunct2, THEN conjunct2, THEN conjunct2, THEN conjunct1, rule_format]
  note indifference = at_h [THEN conjunct2, THEN conjunct2, THEN conjunct2, THEN conjunct2, THEN conjunct2, THEN conjunct2, THEN conjunct2, THEN conjunct2, THEN conjunct2, THEN conjunct2, rule_format]
  note articles_fail = at_g [THEN conjunct2, THEN conjunct2, THEN conjunct2, THEN conjunct1, rule_format]
  from rejected_query [OF rejected] have caught: "query_source ?h Local
      = (empty_source,
         [Log (js ''Querying Authors & Articles source:'') (js ''Local''),
          Console_error (Thrown (js ''offline''))])"
    by (simp add: label)
  from local_empty [OF none] other have articles: "aggregated_articles ?h both_sources = [?post]"
    by simp
  have fields: "\<forall>a\<in>set [?post]. article_author a \<noteq> None"
    "\<forall>u\<in>set [?alice]. author_name u \<noteq> None \<and> author_slug u \<noteq> None"
    by (simp_all add: mk_article_def mk_author_def)
  have page: "with_default True (opt_authorsPage both_sources)"
    by (simp add: with_default_def both_sources_def default_options_def)
  have ready: "aggregated_articles ?h both_sources \<noteq> []
      \<and> aggregated_authors ?h both_sources \<noteq> []
      \<and> (\<forall>a\<in>set (aggregated_articles ?h both_sources). article_author a \<noteq> None)
      \<and> (\<forall>u\<in>set (aggregated_authors ?h both_sources).
            author_name u \<noteq> None \<and> author_slug u \<noteq> None)"
    unfolding articles authors using fields by simp
  from completes [OF ready] have completed: "thrown (createPages ?h both_sources) = None"
    and count: "length (calls (createPages ?h both_sources)) = 3"
    unfolding articles authors by (simp_all add: page)
  from indifference [OF conjI [OF same(1) conjI [OF same(2) conjI [OF same_local same_contentful]]]]
  have indifferent: "calls (createPages ?k both_sources) = calls (createPages ?h both_sources)"
    by simp
  from articles_fail [OF conjI [OF g1 conjI [OF g2 conjI [OF g3 g4]]]]
  have kept: "query_source ?g Local
      = (\<lparr>src_authors = [?alice], src_articles = []\<rparr>,
         [Log (js ''Querying Authors & Articles source:'') (js ''Local''),
          Console_error TypeError])"
    by (simp add: label)
  from rejected caught articles authors completed count indifferent g4 kept
  show ?thesis by (intro conjI)
qed

end
